theory Spec2Isabelle
  imports Complex_Main "HOL-Library.Log_Nat"
begin

section \<open>Data model (src/lib/db.ts)\<close>

text \<open>
  The tables of \<open>EquipmentDatabase\<close> that the loan and trust logic touches. Identifiers are
  the UUID strings of the source. A timestamp is an ISO string in the source and is only ever
  compared through \<open>new Date(...)\<close>, so it is modelled by the integer number of milliseconds
  since the epoch (\<open>new Date(0)\<close> is \<open>0\<close>). A JavaScript \<open>number\<close> holding a score is an
  IEEE 754 double: it is modelled by the rational value of the double, and the arithmetic of
  \<open>calculateTrustScore\<close> rounds the exact result of every operation to the nearest double
  (\<open>double\<close> below). Fields that share a name across the source interfaces carry a prefix
  for their table (\<open>st_\<close>, \<open>eq_\<close>, \<open>ln_\<close>, \<open>bl_\<close>).
\<close>

type_synonym timestamp = int

datatype equipment_status = Available | Borrowed | Reserved | Repair | Lost | Damaged

datatype loan_status = Active | Returned | Overdue

record student =
  st_id :: string
  st_student_id :: string
  st_full_name :: string
  st_year_group :: string
  st_class_name :: "string option"
  st_house :: "string option"
  st_email :: "string option"
  st_avatar_url :: "string option"
  trust_score :: rat
  is_blacklisted :: bool
  blacklist_end_date :: "timestamp option"
  blacklist_reason :: "string option"
  st_created_at :: timestamp
  st_updated_at :: timestamp

record equipment_item =
  eq_id :: string
  eq_item_id :: string
  eq_name :: string
  eq_category :: string
  eq_image_url :: "string option"
  eq_location :: "string option"
  eq_status :: equipment_status
  eq_condition_notes :: "string option"
  eq_created_at :: timestamp
  eq_updated_at :: timestamp

record loan =
  ln_id :: string
  ln_student_id :: string
  ln_equipment_id :: string
  borrowed_by_user_id :: "string option"
  borrowed_at :: timestamp
  due_at :: timestamp
  returned_at :: "timestamp option"
  is_overdue :: bool
  ln_status :: loan_status
  ln_created_at :: timestamp

record blacklist_entry =
  bl_id :: string
  bl_student_id :: string
  blacklisted_by_user_id :: "string option"
  start_date :: timestamp
  end_date :: timestamp
  reason :: string
  is_active :: bool
  bl_created_at :: timestamp

text \<open>
  The store. Each table is the list of its rows (what \<open>toArray\<close> returns); the primary key
  of every table is the row's \<open>id\<close>. \<open>writes_left\<close> is the environment's part: the number
  of further write requests the store accepts before one is rejected (\<open>None\<close>: the store
  never fails). It makes the \<open>catch\<close> branches of the handlers reachable.
\<close>

record database =
  students :: "student list"
  equipment :: "equipment_item list"
  loans :: "loan list"
  blacklistEntries :: "blacklist_entry list"
  writes_left :: "nat option"

datatype error = ConstraintError | StoreFailure | BulkError | RangeError

text \<open>
  A store request runs on the database and either completes (\<open>None\<close>) or throws; in both
  cases it returns the database it leaves behind. A request that throws has had no effect.
\<close>

type_synonym action = "database \<Rightarrow> error option \<times> database"

definition skip :: action where
  "skip d = (None, d)"

definition store_write :: "(database \<Rightarrow> database) \<Rightarrow> action" where
  "store_write f d =
     (case writes_left d of
        None \<Rightarrow> (None, f d)
      | Some 0 \<Rightarrow> (Some StoreFailure, d)
      | Some (Suc n) \<Rightarrow> (None, (f d)\<lparr>writes_left := Some n\<rparr>))"

text \<open>Statements in sequence: the first one that throws ends the block.\<close>

fun run_all :: "action list \<Rightarrow> action" where
  "run_all [] d = (None, d)"
| "run_all (a # as) d =
     (case a d of (None, d') \<Rightarrow> run_all as d' | (Some e, d') \<Rightarrow> (Some e, d'))"

text \<open>\<open>db.transaction('rw', ..., fn)\<close>: when \<open>fn\<close> throws, every write it made is undone.\<close>

definition transaction :: "action \<Rightarrow> action" where
  "transaction body d =
     (case body d of (None, d') \<Rightarrow> (None, d') | (Some e, d') \<Rightarrow> (Some e, d))"

subsection \<open>Table requests (Dexie)\<close>

text \<open>
  \<open>add\<close> throws a \<open>ConstraintError\<close> when the key is taken; \<open>update\<close> and \<open>delete\<close> of
  a key that is absent change nothing and do not throw; \<open>get\<close> of an absent key is
  \<open>undefined\<close>.
\<close>

definition update_row :: "('a \<Rightarrow> string) \<Rightarrow> string \<Rightarrow> ('a \<Rightarrow> 'a) \<Rightarrow> 'a list \<Rightarrow> 'a list" where
  "update_row key k changes rows = map (\<lambda>r. if key r = k then changes r else r) rows"

definition delete_row :: "('a \<Rightarrow> string) \<Rightarrow> string \<Rightarrow> 'a list \<Rightarrow> 'a list" where
  "delete_row key k rows = filter (\<lambda>r. key r \<noteq> k) rows"

definition get_row :: "('a \<Rightarrow> string) \<Rightarrow> string \<Rightarrow> 'a list \<Rightarrow> 'a option" where
  "get_row key k rows = find (\<lambda>r. key r = k) rows"

definition has_key :: "('a \<Rightarrow> string) \<Rightarrow> string \<Rightarrow> 'a list \<Rightarrow> bool" where
  "has_key key k rows = (k \<in> set (map key rows))"

definition add_loan :: "loan \<Rightarrow> action" where
  "add_loan l d =
     (if has_key ln_id (ln_id l) (loans d) then (Some ConstraintError, d)
      else store_write (\<lambda>d. d\<lparr>loans := loans d @ [l]\<rparr>) d)"

definition update_loan :: "string \<Rightarrow> (loan \<Rightarrow> loan) \<Rightarrow> action" where
  "update_loan k changes = store_write (\<lambda>d. d\<lparr>loans := update_row ln_id k changes (loans d)\<rparr>)"

definition delete_loan :: "string \<Rightarrow> action" where
  "delete_loan k = store_write (\<lambda>d. d\<lparr>loans := delete_row ln_id k (loans d)\<rparr>)"

definition get_loan :: "database \<Rightarrow> string \<Rightarrow> loan option" where
  "get_loan d k = get_row ln_id k (loans d)"

definition add_equipment :: "equipment_item \<Rightarrow> action" where
  "add_equipment e d =
     (if has_key eq_id (eq_id e) (equipment d) then (Some ConstraintError, d)
      else store_write (\<lambda>d. d\<lparr>equipment := equipment d @ [e]\<rparr>) d)"

definition update_equipment :: "string \<Rightarrow> (equipment_item \<Rightarrow> equipment_item) \<Rightarrow> action" where
  "update_equipment k changes =
     store_write (\<lambda>d. d\<lparr>equipment := update_row eq_id k changes (equipment d)\<rparr>)"

definition add_student :: "student \<Rightarrow> action" where
  "add_student s d =
     (if has_key st_id (st_id s) (students d) then (Some ConstraintError, d)
      else store_write (\<lambda>d. d\<lparr>students := students d @ [s]\<rparr>) d)"

definition update_student :: "string \<Rightarrow> (student \<Rightarrow> student) \<Rightarrow> action" where
  "update_student k changes =
     store_write (\<lambda>d. d\<lparr>students := update_row st_id k changes (students d)\<rparr>)"

definition get_student :: "database \<Rightarrow> string \<Rightarrow> student option" where
  "get_student d k = get_row st_id k (students d)"

text \<open>
  \<open>bulkAdd\<close> outside a transaction: the rows whose key is free are stored, in order, and the
  call throws a \<open>BulkError\<close> when some row was refused.
\<close>

fun bulk_rows :: "student list \<Rightarrow> student list \<Rightarrow> student list" where
  "bulk_rows [] rows = rows"
| "bulk_rows (s # ss) rows =
     bulk_rows ss (if has_key st_id (st_id s) rows then rows else rows @ [s])"

definition bulkAdd_students :: "student list \<Rightarrow> action" where
  "bulkAdd_students ss d =
     (case store_write (\<lambda>d. d\<lparr>students := bulk_rows ss (students d)\<rparr>) d of
        (None, d') \<Rightarrow>
          (if length (students d') = length (students d) + length ss then None
           else Some BulkError, d')
      | (Some e, d') \<Rightarrow> (Some e, d'))"

definition add_blacklistEntry :: "blacklist_entry \<Rightarrow> action" where
  "add_blacklistEntry e d =
     (if has_key bl_id (bl_id e) (blacklistEntries d) then (Some ConstraintError, d)
      else store_write (\<lambda>d. d\<lparr>blacklistEntries := blacklistEntries d @ [e]\<rparr>) d)"

text \<open>\<open>where(...).and(p).modify(changes)\<close>: every row that satisfies \<open>p\<close> is changed.\<close>

definition modify_blacklistEntries ::
  "(blacklist_entry \<Rightarrow> bool) \<Rightarrow> (blacklist_entry \<Rightarrow> blacklist_entry) \<Rightarrow> action" where
  "modify_blacklistEntries p changes =
     store_write (\<lambda>d. d\<lparr>blacklistEntries :=
        map (\<lambda>e. if p e then changes e else e) (blacklistEntries d)\<rparr>)"

section \<open>Trust score (src/lib/db.ts)\<close>

text \<open>
  The numbers of JavaScript are IEEE 754 doubles, and \<open>/\<close> and \<open>*\<close> return the double nearest
  to the exact quotient or product, a tie going to the even mantissa. \<open>exponent x\<close> is the
  binary exponent of a positive \<open>x\<close> (\<open>2 powi exponent x \<le> x < 2 powi (exponent x + 1)\<close>), and
  \<open>double x\<close> is \<open>x\<close> rounded to 53 significant bits. The exponent range of the format is not
  modelled: the scores lie between 0 and 100, and a ratio of two array lengths that is not 0
  is at least \<open>2 powi (- 32)\<close>, far from overflow and underflow.
\<close>

definition round_half_even :: "rat \<Rightarrow> int" where
  "round_half_even q =
     (let f = \<lfloor>q\<rfloor>; r = q - of_int f
      in if r < 1 / 2 then f else if 1 / 2 < r then f + 1 else if even f then f else f + 1)"

definition exponent :: "rat \<Rightarrow> int" where
  "exponent x = (if 1 \<le> x then bitlen \<lfloor>x\<rfloor> - 1 else - bitlen (\<lceil>1 / x\<rceil> - 1))"

definition double :: "rat \<Rightarrow> rat" where
  "double x =
     (if x = 0 then 0
      else let ulp = 2 powi (exponent \<bar>x\<bar> - 52)
           in sgn x * (of_int (round_half_even (\<bar>x\<bar> / ulp)) * ulp))"

text \<open>
  \<open>Math.round\<close>: the nearest integer, a tie going up. The function is exact on a double (it
  is not computed by a rounded addition of 0.5).
\<close>

definition Math_round :: "rat \<Rightarrow> int" where
  "Math_round x = \<lfloor>x + 1 / 2\<rfloor>"

definition returned_loans :: "string \<Rightarrow> database \<Rightarrow> loan list" where
  "returned_loans studentId d =
     filter (\<lambda>loan. ln_student_id loan = studentId \<and> returned_at loan \<noteq> None) (loans d)"

definition on_time :: "loan \<Rightarrow> bool" where
  "on_time loan = (case returned_at loan of None \<Rightarrow> False | Some r \<Rightarrow> r \<le> due_at loan)"

definition calculateTrustScore :: "string \<Rightarrow> database \<Rightarrow> rat" where
  "calculateTrustScore studentId d =
     (let loans = returned_loans studentId d in
      if length loans = 0 then 50
      else
        let onTimeReturns = length (filter on_time loans);
            score = double (double (of_nat onTimeReturns / of_nat (length loans)) * 100)
        in double (of_int (Math_round (double (score * 10))) / 10))"

definition updateStudentTrustScore :: "string \<Rightarrow> timestamp \<Rightarrow> action" where
  "updateStudentTrustScore studentId now d =
     (let trustScore = calculateTrustScore studentId d in
      update_student studentId (\<lambda>s. s\<lparr>trust_score := trustScore, st_updated_at := now\<rparr>) d)"

text \<open>
  The reference definition of section 4.1 of the specification, written from its words: the
  neutral 50 without returned loans, otherwise a hundred times the share of on-time returns,
  rounded to one decimal place. It is the exact decimal; the number that JavaScript holds for
  it is its \<open>double\<close>.
\<close>

definition round1 :: "rat \<Rightarrow> rat" where
  "round1 x = of_int \<lfloor>x * 10 + 1 / 2\<rfloor> / 10"

definition computeTrustScore_spec :: "string \<Rightarrow> database \<Rightarrow> rat" where
  "computeTrustScore_spec studentId d =
     (let returned = filter (\<lambda>l. ln_student_id l = studentId \<and> returned_at l \<noteq> None) (loans d);
          punctual = filter (\<lambda>l. case returned_at l of Some r \<Rightarrow> r \<le> due_at l | None \<Rightarrow> False)
                       returned
      in if returned = [] then 50
         else round1 (100 * (of_nat (length punctual) / of_nat (length returned))))"


section \<open>What a handler tells its caller\<close>

text \<open>
  A handler ends by showing a toast (or an alert, or by calling \<open>onComplete\<close>); a handler
  that returns at its first line shows nothing. \<open>try_catch\<close> is the \<open>try { ... } catch\<close>
  around a handler's body: the writes made before the throw stay in the store.
\<close>

datatype feedback = Success string | Failure string

definition message :: "error \<Rightarrow> string" where
  "message e =
     (case e of ConstraintError \<Rightarrow> ''Key already exists in the object store.''
      | StoreFailure \<Rightarrow> ''The store rejected the request.''
      | BulkError \<Rightarrow> ''Some rows could not be added.''
      | RangeError \<Rightarrow> ''Invalid time value'')"

definition try_catch ::
  "action \<Rightarrow> string \<Rightarrow> (error \<Rightarrow> string) \<Rightarrow> database \<Rightarrow> feedback option \<times> database" where
  "try_catch body done failed d =
     (case body d of
        (None, d') \<Rightarrow> (Some (Success done), d')
      | (Some e, d') \<Rightarrow> (Some (Failure (failed e)), d'))"

text \<open>\<open>x || null\<close> on a nullable string: the empty string is falsy.\<close>

definition or_null :: "string option \<Rightarrow> string option" where
  "or_null x = (case x of None \<Rightarrow> None | Some s \<Rightarrow> if s = [] then None else Some s)"

text \<open>Decimal notation of a number, as \<open>toString\<close> and template literals print it.\<close>

definition digit :: "nat \<Rightarrow> char" where
  "digit n = ''0123456789'' ! n"

fun dec :: "nat \<Rightarrow> string" where
  "dec n = (if n < 10 then [digit n] else dec (n div 10) @ [digit (n mod 10)])"

declare dec.simps [simp del]

definition dec_int :: "int \<Rightarrow> string" where
  "dec_int i = (if i < 0 then CHR ''-'' # dec (nat (- i)) else dec (nat i))"

text \<open>\<open>s.slice(-6)\<close>: the last six characters.\<close>

definition last6 :: "string \<Rightarrow> string" where
  "last6 s = drop (length s - 6) s"

section \<open>Borrowing (BorrowFlow.handleConfirm)\<close>

text \<open>
  \<open>generateUUID\<close> is random: the handler receives the sequence of identifiers it draws,
  \<open>generateUUID i\<close> being the one drawn in the \<open>i\<close>-th round of the loop. The two clock
  readings of the handler are one \<open>now\<close>; \<open>selectedDuration\<close> is in minutes.
\<close>

definition new_loan ::
  "student \<Rightarrow> string option \<Rightarrow> timestamp \<Rightarrow> timestamp \<Rightarrow> string \<Rightarrow> string \<Rightarrow> loan" where
  "new_loan selectedStudent user now dueTime uuid equipmentId =
     \<lparr>ln_id = uuid, ln_student_id = st_id selectedStudent, ln_equipment_id = equipmentId,
      borrowed_by_user_id = or_null user, borrowed_at = now, due_at = dueTime,
      returned_at = None, is_overdue = False, ln_status = Active, ln_created_at = now\<rparr>"

text \<open>One round of the loop: the loan is added, then the item is marked.\<close>

definition confirm_item ::
  "student \<Rightarrow> string option \<Rightarrow> timestamp \<Rightarrow> timestamp \<Rightarrow> (nat \<Rightarrow> string) \<Rightarrow> nat \<times> string \<Rightarrow> action" where
  "confirm_item selectedStudent user now dueTime generateUUID item =
     (case item of (i, equipmentId) \<Rightarrow>
        run_all
          [add_loan (new_loan selectedStudent user now dueTime (generateUUID i) equipmentId),
           update_equipment equipmentId (\<lambda>e. e\<lparr>eq_status := Borrowed, eq_updated_at := now\<rparr>)])"

definition handleConfirm ::
  "student option \<Rightarrow> string list \<Rightarrow> int \<Rightarrow> string option \<Rightarrow> timestamp \<Rightarrow> (nat \<Rightarrow> string) \<Rightarrow>
     database \<Rightarrow> feedback option \<times> database" where
  "handleConfirm selectedStudent selectedEquipment selectedDuration user now generateUUID d =
     (case selectedStudent of
        None \<Rightarrow> (None, d)
      | Some st \<Rightarrow>
          if length selectedEquipment = 0 then (None, d)
          else
            let dueTime = now + selectedDuration * 60000 in
            try_catch
              (run_all (map (confirm_item st user now dueTime generateUUID)
                          (enumerate 0 selectedEquipment)))
              ''onComplete''
              (\<lambda>e. ''Failed to create loan: '' @ message e) d)"

text \<open>\<open>toggleEquipmentSelect\<close>: only an available item can be put on the selection.\<close>

definition toggleEquipmentSelect :: "string \<Rightarrow> equipment_status \<Rightarrow> string list \<Rightarrow> string list" where
  "toggleEquipmentSelect itemId status prev =
     (if status \<noteq> Available then prev
      else if itemId \<in> set prev then filter (\<lambda>i. i \<noteq> itemId) prev else prev @ [itemId])"

section \<open>Returning and deleting a loan (StudentProfileModal)\<close>

text \<open>
  The modal belongs to one student (\<open>student.id\<close>) and acts on the selected entry of the
  activity list, of which the handlers read the \<open>id\<close> only.
\<close>

definition handleMarkReturned ::
  "string \<Rightarrow> string option \<Rightarrow> timestamp \<Rightarrow> database \<Rightarrow> feedback option \<times> database" where
  "handleMarkReturned student_id selectedLoan now d =
     (case selectedLoan of
        None \<Rightarrow> (None, d)
      | Some selected_id \<Rightarrow>
          try_catch
            (run_all
              [update_loan selected_id
                 (\<lambda>l. l\<lparr>returned_at := Some now, ln_status := Returned, is_overdue := False\<rparr>),
               (\<lambda>d. case get_loan d selected_id of
                       Some loan \<Rightarrow>
                         update_equipment (ln_equipment_id loan)
                           (\<lambda>e. e\<lparr>eq_status := Available, eq_updated_at := now\<rparr>) d
                     | None \<Rightarrow> skip d),
               (\<lambda>d. let newTrustScore = calculateTrustScore student_id d in
                     update_student student_id
                       (\<lambda>s. s\<lparr>trust_score := newTrustScore, st_updated_at := now\<rparr>) d)])
            ''Loan marked as returned''
            (\<lambda>e. ''Failed to mark loan as returned'') d)"

definition handleDeleteLoan ::
  "string \<Rightarrow> string option \<Rightarrow> timestamp \<Rightarrow> database \<Rightarrow> feedback option \<times> database" where
  "handleDeleteLoan student_id selectedLoan now d =
     (case selectedLoan of
        None \<Rightarrow> (None, d)
      | Some selected_id \<Rightarrow>
          try_catch
            (run_all
              [(\<lambda>d. case get_loan d selected_id of
                       Some loan \<Rightarrow>
                         if returned_at loan = None
                         then update_equipment (ln_equipment_id loan)
                                (\<lambda>e. e\<lparr>eq_status := Available, eq_updated_at := now\<rparr>) d
                         else skip d
                     | None \<Rightarrow> skip d),
               delete_loan selected_id,
               (\<lambda>d. let newTrustScore = calculateTrustScore student_id d in
                     update_student student_id
                       (\<lambda>s. s\<lparr>trust_score := newTrustScore, st_updated_at := now\<rparr>) d)])
            ''Loan entry deleted successfully''
            (\<lambda>e. ''Failed to delete loan entry'') d)"

section \<open>Adding and editing equipment (AdminInventory.handleSubmit)\<close>

record equipment_form =
  f_item_id :: string
  f_name :: string
  f_category :: string
  f_status :: equipment_status
  f_condition_notes :: string

text \<open>
  \<open>selectedFile\<close> is the address that the image store returns for the chosen file
  (\<open>None\<close>: no file was chosen).
\<close>

definition handleSubmit ::
  "equipment_item option \<Rightarrow> equipment_form \<Rightarrow> string option \<Rightarrow> timestamp \<Rightarrow> string \<Rightarrow>
     database \<Rightarrow> feedback option \<times> database" where
  "handleSubmit editingItem formData selectedFile now uuid d =
     (let imageUrl =
            (case selectedFile of
               Some url \<Rightarrow> Some url
             | None \<Rightarrow> (case editingItem of Some item \<Rightarrow> or_null (eq_image_url item) | None \<Rightarrow> None))
      in case editingItem of
           Some item \<Rightarrow>
             try_catch
               (update_equipment (eq_id item)
                  (\<lambda>e. e\<lparr>eq_item_id := f_item_id formData, eq_name := f_name formData,
                          eq_category := f_category formData, eq_status := f_status formData,
                          eq_condition_notes := Some (f_condition_notes formData),
                          eq_image_url := imageUrl, eq_updated_at := now\<rparr>))
               ''Equipment updated successfully'' message d
         | None \<Rightarrow>
             if or_null imageUrl = None then (Some (Failure ''Please upload an image''), d)
             else
               try_catch
                 (add_equipment
                    \<lparr>eq_id = uuid, eq_item_id = f_item_id formData, eq_name = f_name formData,
                     eq_category = f_category formData, eq_image_url = imageUrl,
                     eq_location = None, eq_status = f_status formData,
                     eq_condition_notes = or_null (Some (f_condition_notes formData)),
                     eq_created_at = now, eq_updated_at = now\<rparr>)
                 ''Equipment added successfully'' message d)"


section \<open>Adding students (AdminStudents)\<close>

record manual_form =
  m_full_name :: string
  m_class_name :: string

definition handleManualSubmit ::
  "manual_form \<Rightarrow> timestamp \<Rightarrow> string \<Rightarrow> database \<Rightarrow> feedback option \<times> database" where
  "handleManualSubmit manualForm now uuid d =
     (let studentId = ''STU'' @ last6 (dec_int now);
          newStudent =
            \<lparr>st_id = uuid, st_student_id = studentId, st_full_name = m_full_name manualForm,
             st_year_group = ''Year 7'', st_class_name = Some (m_class_name manualForm),
             st_house = None, st_email = None, st_avatar_url = None, trust_score = 100,
             is_blacklisted = False, blacklist_end_date = None, blacklist_reason = None,
             st_created_at = now, st_updated_at = now\<rparr>
      in try_catch (add_student newStudent) ''Student added successfully'' message d)"

text \<open>
  The import, from the rows that the parser of the file hands over (\<open>data\<close>); the parsing
  itself is left to the file format.
\<close>

record import_row =
  r_full_name :: string
  r_class_name :: string
  r_house :: "string option"

definition handleFileImport ::
  "import_row list \<Rightarrow> timestamp \<Rightarrow> (nat \<Rightarrow> string) \<Rightarrow> database \<Rightarrow> feedback option \<times> database" where
  "handleFileImport data now generateUUID d =
     (if length data = 0 then (Some (Failure ''No valid data found in file''), d)
      else
        let studentsToInsert =
              map (\<lambda>(index, row).
                     \<lparr>st_id = generateUUID index,
                      st_student_id = ''STU'' @ last6 (dec_int now) @ dec index,
                      st_full_name = r_full_name row,
                      st_year_group = (if r_class_name row = [] then ''Year 7'' else r_class_name row),
                      st_class_name = Some (r_class_name row),
                      st_house = or_null (r_house row), st_email = None, st_avatar_url = None,
                      trust_score = 100, is_blacklisted = False, blacklist_end_date = None,
                      blacklist_reason = None, st_created_at = now, st_updated_at = now\<rparr>)
                  (enumerate 0 data)
        in try_catch (bulkAdd_students studentsToInsert)
             (''Successfully imported '' @ dec (length data) @ '' students'') message d)"

section \<open>Suspending a student (AdminStudents.handleBlacklistSubmit)\<close>

text \<open>
  The form of the modal. Its end date is a text field: \<open>None\<close> stands for a text from which
  \<open>new Date\<close> makes no date, so that \<open>toISOString\<close> throws a \<open>RangeError\<close>.
  \<open>selectedStudent\<close> is the row as the page last loaded it, not a fresh read. Halving a
  double is exact (short of underflow), so the product with 0.5 carries no rounding.
\<close>

record blacklist_form =
  f_is_blacklisted :: bool
  f_blacklist_end_date :: "timestamp option"
  f_blacklist_reason :: string

definition updateData :: "student \<Rightarrow> blacklist_form \<Rightarrow> timestamp \<Rightarrow> timestamp option \<Rightarrow> student \<Rightarrow> student" where
  "updateData selectedStudent blacklistForm now endDate s =
     (let isBlacklisted = f_is_blacklisted blacklistForm;
          s1 = s\<lparr>is_blacklisted := isBlacklisted,
                 blacklist_end_date := (if isBlacklisted then endDate else None),
                 blacklist_reason :=
                   (if isBlacklisted then Some (f_blacklist_reason blacklistForm) else None),
                 st_updated_at := now\<rparr>
      in if isBlacklisted \<and> \<not> is_blacklisted selectedStudent
         then s1\<lparr>trust_score := max 0 (trust_score selectedStudent * (1 / 2))\<rparr>
         else s1)"

definition handleBlacklistSubmit ::
  "student option \<Rightarrow> blacklist_form \<Rightarrow> timestamp \<Rightarrow> string \<Rightarrow> database \<Rightarrow>
     feedback option \<times> database" where
  "handleBlacklistSubmit selectedStudent blacklistForm now uuid d =
     (case selectedStudent of
        None \<Rightarrow> (None, d)
      | Some sel \<Rightarrow>
          let isBlacklisted = f_is_blacklisted blacklistForm in
          if isBlacklisted \<and> f_blacklist_end_date blacklistForm = None
          then (Some (Failure (message RangeError)), d)
          else
            try_catch
              (transaction
                (run_all
                  [update_student (st_id sel)
                     (updateData sel blacklistForm now (f_blacklist_end_date blacklistForm)),
                   (if isBlacklisted
                    then add_blacklistEntry
                           \<lparr>bl_id = uuid, bl_student_id = st_id sel, blacklisted_by_user_id = None,
                            start_date = now,
                            end_date = (case f_blacklist_end_date blacklistForm of
                                          Some t \<Rightarrow> t | None \<Rightarrow> 0),
                            reason = f_blacklist_reason blacklistForm, is_active = True,
                            bl_created_at = now\<rparr>
                    else if is_blacklisted sel
                    then modify_blacklistEntries
                           (\<lambda>entry. bl_student_id entry = st_id sel \<and> is_active entry)
                           (\<lambda>entry. entry\<lparr>is_active := False\<rparr>)
                    else skip)]))
              ''Student access updated'' message d)"

text \<open>\<open>openBlacklistModal\<close>, after \<open>loadStudents\<close>: the row of the list becomes the selection.\<close>

definition openBlacklistModal :: "database \<Rightarrow> string \<Rightarrow> student option" where
  "openBlacklistModal d k = get_student d k"

section \<open>The at-risk pass (AdminLayout.checkAtRiskStudents)\<close>

record at_risk_student =
  ar_student :: student
  late_returns_count :: nat
  late_returns_since_suspension :: nat
  total_suspensions :: nat
  warning_threshold :: nat
  total_late_returns :: nat

text \<open>The first loop: a suspension whose end date has passed is lifted on the student's row.\<close>

definition expired :: "timestamp \<Rightarrow> student \<Rightarrow> bool" where
  "expired now student =
     (is_blacklisted student \<and>
      (case blacklist_end_date student of None \<Rightarrow> False | Some t \<Rightarrow> t < now))"

definition lift_suspension :: "timestamp \<Rightarrow> student \<Rightarrow> student" where
  "lift_suspension now s =
     s\<lparr>is_blacklisted := False, blacklist_end_date := None, blacklist_reason := None,
       st_updated_at := now\<rparr>"

definition lazy_expiry :: "timestamp \<Rightarrow> student list \<Rightarrow> action" where
  "lazy_expiry now snapshot =
     run_all (map (\<lambda>student. if expired now student
                               then update_student (st_id student) (lift_suspension now)
                               else skip) snapshot)"

text \<open>The second loop reads the store only. Its local constants, by their names.\<close>

definition late :: "loan \<Rightarrow> bool" where
  "late loan = (case returned_at loan of None \<Rightarrow> False | Some r \<Rightarrow> r > due_at loan)"

definition returnedLoans :: "database \<Rightarrow> string \<Rightarrow> loan list" where
  "returnedLoans d studentId =
     filter (\<lambda>loan. returned_at loan \<noteq> None)
       (filter (\<lambda>loan. ln_student_id loan = studentId) (loans d))"

definition totalLateReturns :: "database \<Rightarrow> string \<Rightarrow> nat" where
  "totalLateReturns d studentId = length (filter late (returnedLoans d studentId))"

definition allSuspensions :: "database \<Rightarrow> string \<Rightarrow> blacklist_entry list" where
  "allSuspensions d studentId =
     filter (\<lambda>entry. bl_student_id entry = studentId) (blacklistEntries d)"

text \<open>
  \<open>sort((a, b) => b.end_date - a.end_date)\<close>: descending in the end date, and stable.
\<close>

definition inactiveSuspensions :: "database \<Rightarrow> string \<Rightarrow> blacklist_entry list" where
  "inactiveSuspensions d studentId =
     sort_key (\<lambda>entry. - end_date entry)
       (filter (\<lambda>entry. is_active entry = False) (allSuspensions d studentId))"

definition lastSuspension :: "database \<Rightarrow> string \<Rightarrow> blacklist_entry option" where
  "lastSuspension d studentId =
     (case inactiveSuspensions d studentId of [] \<Rightarrow> None | entry # _ \<Rightarrow> Some entry)"

definition lastSuspensionDate :: "database \<Rightarrow> string \<Rightarrow> timestamp" where
  "lastSuspensionDate d studentId =
     (case lastSuspension d studentId of Some entry \<Rightarrow> end_date entry | None \<Rightarrow> 0)"

definition lateReturnsSince :: "database \<Rightarrow> string \<Rightarrow> nat" where
  "lateReturnsSince d studentId =
     length (filter (\<lambda>loan. case returned_at loan of
                               None \<Rightarrow> False
                             | Some returnedDate \<Rightarrow>
                                 returnedDate > due_at loan \<and>
                                 returnedDate > lastSuspensionDate d studentId)
               (returnedLoans d studentId))"

definition suspensionCount :: "database \<Rightarrow> string \<Rightarrow> nat" where
  "suspensionCount d studentId =
     length (filter (\<lambda>entry. bl_student_id entry = studentId) (blacklistEntries d))"

definition warningThreshold :: "database \<Rightarrow> string \<Rightarrow> nat" where
  "warningThreshold d studentId = (if suspensionCount d studentId > 0 then 1 else 3)"

text \<open>
  The body of the second loop up to its test \<open>lateReturnsSince >= warningThreshold\<close>: the
  entry for a student who passes it.
\<close>

definition atRiskEntry :: "database \<Rightarrow> student \<Rightarrow> at_risk_student option" where
  "atRiskEntry d student =
     (if lateReturnsSince d (st_id student) \<ge> warningThreshold d (st_id student)
      then Some \<lparr>ar_student = student,
                 late_returns_count = lateReturnsSince d (st_id student),
                 late_returns_since_suspension = lateReturnsSince d (st_id student),
                 total_suspensions = suspensionCount d (st_id student),
                 warning_threshold = warningThreshold d (st_id student),
                 total_late_returns = totalLateReturns d (st_id student)\<rparr>
      else None)"

text \<open>
  A warning that was dismissed is kept in \<open>localStorage\<close> under a key made of the student
  and the count; \<open>localStorage\<close> is \<open>getItem\<close>, and an empty text is falsy.
\<close>

definition dismissedKey :: "at_risk_student \<Rightarrow> string" where
  "dismissedKey r =
     ''dismissed_'' @ st_id (ar_student r) @ ''_'' @ dec (late_returns_since_suspension r)"

definition dismissed :: "(string \<Rightarrow> string option) \<Rightarrow> at_risk_student \<Rightarrow> bool" where
  "dismissed localStorage r = (or_null (localStorage (dismissedKey r)) \<noteq> None)"

definition studentsWithLateReturns ::
  "(string \<Rightarrow> string option) \<Rightarrow> database \<Rightarrow> student list \<Rightarrow> at_risk_student list" where
  "studentsWithLateReturns localStorage d snapshot =
     concat (map (\<lambda>student. case atRiskEntry d student of
                               None \<Rightarrow> []
                             | Some r \<Rightarrow> if \<not> dismissed localStorage r then [r] else [])
               snapshot)"

text \<open>
  The pass: both loops run over the rows read at its start. When a write throws, the list
  of the page is not set (\<open>None\<close>).
\<close>

definition checkAtRiskStudents ::
  "timestamp \<Rightarrow> (string \<Rightarrow> string option) \<Rightarrow> database \<Rightarrow> at_risk_student list option \<times> database" where
  "checkAtRiskStudents now localStorage d =
     (let snapshot = students d in
      case lazy_expiry now snapshot d of
        (None, d') \<Rightarrow> (Some (studentsWithLateReturns localStorage d' snapshot), d')
      | (Some e, d') \<Rightarrow> (None, d'))"


section \<open>Properties\<close>

subsection \<open>Equipment and open loans\<close>

definition open_loans :: "database \<Rightarrow> string \<Rightarrow> loan list" where
  "open_loans d equipmentId =
     filter (\<lambda>l. ln_equipment_id l = equipmentId \<and> returned_at l = None) (loans d)"

text \<open>An item is borrowed exactly when one loan that references it is open.\<close>

definition borrowed_iff_one_open_loan :: "database \<Rightarrow> bool" where
  "borrowed_iff_one_open_loan d =
     (\<forall>e \<in> set (equipment d). (eq_status e = Borrowed) = (length (open_loans d (eq_id e)) = 1))"

text \<open>
  The form of it that the loan handlers maintain: a borrowed item has one open loan, and an
  item in any other status has none.
\<close>

definition open_loans_match_status :: "database \<Rightarrow> bool" where
  "open_loans_match_status d =
     (\<forall>e \<in> set (equipment d).
        length (open_loans d (eq_id e)) = (if eq_status e = Borrowed then 1 else 0))"

text \<open>
  What the pages check before they call a handler: every item on the selection is available
  (\<open>toggleEquipmentSelect\<close>), and the button that marks a loan returned is shown for a loan
  without a return time.
\<close>

definition all_available :: "database \<Rightarrow> string list \<Rightarrow> bool" where
  "all_available d selectedEquipment =
     (\<forall>e \<in> set (equipment d). eq_id e \<in> set selectedEquipment \<longrightarrow> eq_status e = Available)"

definition not_yet_returned :: "database \<Rightarrow> string option \<Rightarrow> bool" where
  "not_yet_returned d selectedLoan =
     (case selectedLoan of
        None \<Rightarrow> True
      | Some k \<Rightarrow> (case get_loan d k of None \<Rightarrow> True | Some l \<Rightarrow> returned_at l = None))"

text \<open>The primary key of the loans table is unique.\<close>

definition unique_loan_ids :: "database \<Rightarrow> bool" where
  "unique_loan_ids d = distinct (map ln_id (loans d))"

definition unique_student_ids :: "database \<Rightarrow> bool" where
  "unique_student_ids d = distinct (map st_id (students d))"

subsection \<open>Suspensions\<close>

definition active_entries :: "database \<Rightarrow> string \<Rightarrow> blacklist_entry list" where
  "active_entries d studentId =
     filter (\<lambda>e. bl_student_id e = studentId \<and> is_active e) (blacklistEntries d)"

definition stored_scores :: "database \<Rightarrow> (string \<times> rat) list" where
  "stored_scores d = map (\<lambda>s. (st_id s, trust_score s)) (students d)"

text \<open>The score stored for a student is \<open>v\<close>.\<close>

definition stored_score_is :: "database \<Rightarrow> string \<Rightarrow> rat \<Rightarrow> bool" where
  "stored_score_is d studentId v =
     (\<forall>s \<in> set (students d). st_id s = studentId \<longrightarrow> trust_score s = v)"

subsection \<open>The at-risk rule in the words of the specification (section 4.4)\<close>

definition lastSuspensionEndDate_spec :: "database \<Rightarrow> string \<Rightarrow> timestamp" where
  "lastSuspensionEndDate_spec d studentId =
     (let closed = filter (\<lambda>e. bl_student_id e = studentId \<and> \<not> is_active e) (blacklistEntries d)
      in if closed = [] then 0 else Max (set (map end_date closed)))"

definition lateReturnsSinceLastSuspension_spec :: "database \<Rightarrow> string \<Rightarrow> nat" where
  "lateReturnsSinceLastSuspension_spec d studentId =
     length (filter (\<lambda>l. ln_student_id l = studentId \<and>
                          (case returned_at l of
                             None \<Rightarrow> False
                           | Some r \<Rightarrow> r > due_at l \<and> r > lastSuspensionEndDate_spec d studentId))
               (loans d))"

definition totalSuspensionCount_spec :: "database \<Rightarrow> string \<Rightarrow> nat" where
  "totalSuspensionCount_spec d studentId =
     length (filter (\<lambda>e. bl_student_id e = studentId) (blacklistEntries d))"

definition warningThreshold_spec :: "database \<Rightarrow> string \<Rightarrow> nat" where
  "warningThreshold_spec d studentId = (if totalSuspensionCount_spec d studentId > 0 then 1 else 3)"

text \<open>Every return on record happened after the epoch.\<close>

definition returned_after_epoch :: "database \<Rightarrow> bool" where
  "returned_after_epoch d =
     (\<forall>l \<in> set (loans d). case returned_at l of None \<Rightarrow> True | Some r \<Rightarrow> 0 < r)"

text \<open>The late returns of a student after a given time.\<close>

definition late_returns_after :: "database \<Rightarrow> string \<Rightarrow> timestamp \<Rightarrow> nat" where
  "late_returns_after d studentId t =
     length (filter (\<lambda>l. ln_student_id l = studentId \<and>
                          (case returned_at l of
                             None \<Rightarrow> False
                           | Some r \<Rightarrow> r > due_at l \<and> r > t))
               (loans d))"

subsection \<open>Example data\<close>

definition empty_db :: database where
  "empty_db = \<lparr>students = [], equipment = [], loans = [], blacklistEntries = [], writes_left = None\<rparr>"

definition alice :: student where
  "alice = \<lparr>st_id = ''s1'', st_student_id = ''STU000001'', st_full_name = ''Alice'',
            st_year_group = ''Year 7'', st_class_name = Some ''7A'', st_house = None,
            st_email = None, st_avatar_url = None, trust_score = 50, is_blacklisted = False,
            blacklist_end_date = None, blacklist_reason = None, st_created_at = 1,
            st_updated_at = 1\<rparr>"

definition ball :: equipment_item where
  "ball = \<lparr>eq_id = ''e1'', eq_item_id = ''BB-01'', eq_name = ''Basketball'',
           eq_category = ''Basketball'', eq_image_url = Some ''img'', eq_location = None,
           eq_status = Available, eq_condition_notes = None, eq_created_at = 1,
           eq_updated_at = 1\<rparr>"

definition loan_of :: "string \<Rightarrow> timestamp \<Rightarrow> timestamp option \<Rightarrow> loan" where
  "loan_of k due ret =
     \<lparr>ln_id = k, ln_student_id = ''s1'', ln_equipment_id = ''e1'', borrowed_by_user_id = None,
      borrowed_at = 10, due_at = due, returned_at = ret, is_overdue = False,
      ln_status = (if ret = None then Active else Returned), ln_created_at = 10\<rparr>"

definition entry_of :: "string \<Rightarrow> timestamp \<Rightarrow> bool \<Rightarrow> blacklist_entry" where
  "entry_of k e a =
     \<lparr>bl_id = k, bl_student_id = ''s1'', blacklisted_by_user_id = None, start_date = 1,
      end_date = e, reason = ''late'', is_active = a, bl_created_at = 1\<rparr>"

definition db_of :: "student list \<Rightarrow> equipment_item list \<Rightarrow> loan list \<Rightarrow> blacklist_entry list \<Rightarrow> database" where
  "db_of ss es ls bs =
     \<lparr>students = ss, equipment = es, loans = ls, blacklistEntries = bs, writes_left = None\<rparr>"

definition suspend_form :: blacklist_form where
  "suspend_form = \<lparr>f_is_blacklisted = True, f_blacklist_end_date = Some 100,
                    f_blacklist_reason = ''late returns''\<rparr>"

definition borrowed_form :: equipment_form where
  "borrowed_form = \<lparr>f_item_id = ''BB-02'', f_name = ''Basketball'', f_category = ''Basketball'',
                     f_status = Borrowed, f_condition_notes = []\<rparr>"

definition uuids :: "nat \<Rightarrow> string" where
  "uuids i = ''l'' @ dec i"


definition available_form :: equipment_form where
  "available_form = \<lparr>f_item_id = ''BB-01'', f_name = ''Basketball'', f_category = ''Basketball'',
                      f_status = Available, f_condition_notes = []\<rparr>"

text \<open>Alice holds the ball on one open loan.\<close>

definition lent :: database where
  "lent = db_of [alice] [ball\<lparr>eq_status := Borrowed\<rparr>] [loan_of ''l0'' 20 None] []"

text \<open>Alice after a first suspension until time 100, and after the pass at time 200.\<close>

definition suspended :: database where
  "suspended = snd (handleBlacklistSubmit (Some alice) suspend_form 10 ''b1'' (db_of [alice] [] [] []))"

definition lapsed :: database where
  "lapsed = snd (checkAtRiskStudents 200 (\<lambda>k. None) suspended)"

text \<open>Bob is added by hand and borrows the ball.\<close>

definition enrolled :: database where
  "enrolled =
     snd (handleManualSubmit \<lparr>m_full_name = ''Bob'', m_class_name = ''7B''\<rparr> 5 ''s2''
            (db_of [] [ball] [] []))"

definition borrowing :: database where
  "borrowing = snd (handleConfirm (get_student enrolled ''s2'') [''e1''] 60 None 10 uuids enrolled)"

text \<open>
  The students page lists Bob while he holds the ball. His loan, due at 3600010, is marked
  returned at 4000000 in the profile modal; the suspension modal is then opened on the row
  of the list, which the page has not loaded again, and saved.
\<close>

definition listed_row :: "student option" where
  "listed_row = openBlacklistModal borrowing ''s2''"

definition returned_late :: database where
  "returned_late = snd (handleMarkReturned ''s2'' (Some ''l0'') 4000000 borrowing)"

definition late_form :: blacklist_form where
  "late_form = \<lparr>f_is_blacklisted = True, f_blacklist_end_date = Some 9000000,
                 f_blacklist_reason = ''late returns''\<rparr>"

definition stale_suspension :: database where
  "stale_suspension = snd (handleBlacklistSubmit listed_row late_form 4000100 ''b1'' returned_late)"

text \<open>Alice is suspended while she holds the ball.\<close>

definition suspended_lent :: database where
  "suspended_lent = snd (handleBlacklistSubmit (Some alice) suspend_form 10 ''b1'' lent)"

text \<open>Late returns of Alice at the times 30, 40 and 50, and a closed suspension until 35.\<close>

definition two_late :: database where
  "two_late = db_of [alice] [ball] [loan_of ''l1'' 20 (Some 30), loan_of ''l2'' 20 (Some 40)] []"

definition three_late :: database where
  "three_late =
     db_of [alice] [ball]
       [loan_of ''l1'' 20 (Some 30), loan_of ''l2'' 20 (Some 40), loan_of ''l3'' 20 (Some 50)] []"

definition repeat_offender :: database where
  "repeat_offender =
     db_of [alice] [ball] [loan_of ''l1'' 20 (Some 30), loan_of ''l2'' 20 (Some 40)]
       [entry_of ''b1'' 35 False]"

definition three_returns :: database where
  "three_returns =
     db_of [alice] [ball]
       [loan_of ''l1'' 20 (Some 15), loan_of ''l2'' 20 (Some 20), loan_of ''l3'' 20 (Some 25)] []"

text \<open>Eighty returned loans of Alice, all due at time 20: 23 came back at 15, 57 at 30.\<close>

definition eighty_returns :: database where
  "eighty_returns =
     db_of [alice] [ball]
       (map (\<lambda>i. loan_of (uuids i) 20 (Some 15)) [0..<23] @
        map (\<lambda>i. loan_of (uuids i) 20 (Some 30)) [23..<80]) []"

section \<open>Facts about the store\<close>

lemma store_write_None: "writes_left d = None \<Longrightarrow> store_write f d = (None, f d)"
  by (simp add: store_write_def)

lemma get_row_Some: "get_row key k rows = Some r \<Longrightarrow> r \<in> set rows \<and> key r = k"
  by (induction rows) (auto simp: get_row_def split: if_splits)

lemma get_row_None: "get_row key k rows = None \<Longrightarrow> \<forall>r \<in> set rows. key r \<noteq> k"
  by (induction rows) (auto simp: get_row_def split: if_splits)

lemma update_row_absent: "\<forall>r \<in> set rows. key r \<noteq> k \<Longrightarrow> update_row key k f rows = rows"
  by (induction rows) (auto simp: update_row_def)

lemma delete_row_absent: "\<forall>r \<in> set rows. key r \<noteq> k \<Longrightarrow> delete_row key k rows = rows"
  by (induction rows) (auto simp: delete_row_def)

lemma in_update_row:
  "e \<in> set (update_row key k f rows) \<Longrightarrow> \<exists>e0 \<in> set rows. e = (if key e0 = k then f e0 else e0)"
  by (auto simp: update_row_def)

lemma get_row_update_row:
  assumes "\<And>r. key (f r) = key r"
  shows "get_row key k (update_row key k f rows) = map_option f (get_row key k rows)"
  using assms by (induction rows) (auto simp: get_row_def update_row_def)

text \<open>
  Under a unique key, changing or deleting the row \<open>l\<close> moves the number of rows that
  satisfy a test by what \<open>l\<close> itself contributes.
\<close>

lemma count_update_row:
  "distinct (map key rows) \<Longrightarrow> l \<in> set rows \<Longrightarrow> key l = k \<Longrightarrow>
   length (filter P (update_row key k f rows)) + (if P l then 1 else 0)
     = length (filter P rows) + (if P (f l) then 1 else 0)"
proof (induction rows)
  case Nil
  then show ?case by simp
next
  case (Cons r rows)
  show ?case
  proof (cases "r = l")
    case True
    with Cons.prems have "\<forall>x \<in> set rows. key x \<noteq> k" by (fastforce simp: image_iff)
    then have "update_row key k f rows = rows" by (rule update_row_absent)
    then have "update_row key k f (r # rows) = f l # rows"
      using True Cons.prems by (simp add: update_row_def)
    then show ?thesis using True by simp
  next
    case False
    with Cons.prems have l: "l \<in> set rows" and d: "distinct (map key rows)" and "key r \<noteq> k"
      by auto
    then have "update_row key k f (r # rows) = r # update_row key k f rows"
      by (simp add: update_row_def)
    then show ?thesis using Cons.IH [OF d l Cons.prems(3)] by simp
  qed
qed

lemma count_delete_row:
  "distinct (map key rows) \<Longrightarrow> l \<in> set rows \<Longrightarrow> key l = k \<Longrightarrow>
   length (filter P (delete_row key k rows)) + (if P l then 1 else 0) = length (filter P rows)"
proof (induction rows)
  case Nil
  then show ?case by simp
next
  case (Cons r rows)
  show ?case
  proof (cases "r = l")
    case True
    with Cons.prems have "\<forall>x \<in> set rows. key x \<noteq> k" by (fastforce simp: image_iff)
    then have "delete_row key k rows = rows" by (rule delete_row_absent)
    then have "delete_row key k (r # rows) = rows"
      using True Cons.prems by (simp add: delete_row_def)
    then show ?thesis using True by simp
  next
    case False
    with Cons.prems have l: "l \<in> set rows" and d: "distinct (map key rows)" and "key r \<noteq> k"
      by auto
    then have "delete_row key k (r # rows) = r # delete_row key k rows"
      by (simp add: delete_row_def)
    then show ?thesis using Cons.IH [OF d l Cons.prems(3)] by simp
  qed
qed

section \<open>The trust score\<close>

subsection \<open>Rounding to a double\<close>

lemma powi_minus_nat: "(2::rat) powi (- int j) = 1 / 2 ^ j"
  by (simp add: power_int_minus field_simps)

lemma exponent_le:
  assumes "0 < x"
  shows "2 powi (exponent x) \<le> x"
proof (cases "1 \<le> x")
  case True
  let ?n = "\<lfloor>x\<rfloor>"
  have n: "0 < ?n" using True by simp
  have "2 ^ nat (bitlen ?n - 1) \<le> ?n" using bitlen_bounds [OF n] by simp
  then have "(2::rat) ^ nat (bitlen ?n - 1) \<le> of_int ?n"
    by (metis of_int_le_iff of_int_numeral of_int_power)
  also have "\<dots> \<le> x" by simp
  finally have "(2::rat) ^ nat (bitlen ?n - 1) \<le> x" .
  moreover have "0 < bitlen ?n"
    using n bitlen_nonneg [of ?n] bitlen_eq_zero_iff [of ?n] by linarith
  ultimately show ?thesis using True by (simp add: exponent_def power_int_def)
next
  case False
  let ?c = "\<lceil>1 / x\<rceil>"
  let ?j = "nat (bitlen (?c - 1))"
  have "1 < 1 / x" using False assms by simp
  then have c: "0 < ?c - 1" by (simp add: less_ceiling_iff)
  have "?c - 1 < 2 ^ ?j" using bitlen_bounds [OF c] by simp
  then have "?c \<le> 2 ^ ?j" by simp
  then have "(of_int ?c :: rat) \<le> 2 ^ ?j"
    by (metis of_int_le_iff of_int_numeral of_int_power)
  moreover have "1 / x \<le> of_int ?c" by simp
  ultimately have "1 / x \<le> 2 ^ ?j" by linarith
  then have le: "1 / 2 ^ ?j \<le> x"
    using assms by (simp add: field_simps)
  have "exponent x = - int ?j" using False by (simp add: exponent_def bitlen_nonneg)
  then have "2 powi (exponent x) = (1::rat) / 2 ^ ?j"
    by (simp only: powi_minus_nat)
  then show ?thesis using le by simp
qed

lemma exponent_less:
  assumes "0 < x"
  shows "x < 2 powi (exponent x + 1)"
proof (cases "1 \<le> x")
  case True
  let ?n = "\<lfloor>x\<rfloor>"
  let ?j = "nat (bitlen ?n)"
  have n: "0 < ?n" using True by simp
  have "?n < 2 ^ ?j" using bitlen_bounds [OF n] by simp
  then have "?n + 1 \<le> 2 ^ ?j" by simp
  then have "(of_int (?n + 1) :: rat) \<le> of_int (2 ^ ?j)" by (simp only: of_int_le_iff)
  then have "(of_int ?n :: rat) + 1 \<le> 2 ^ ?j" by simp
  moreover have "x < of_int ?n + 1" by linarith
  ultimately have "x < 2 ^ ?j" by linarith
  moreover have "exponent x + 1 = int ?j" using True by (simp add: exponent_def bitlen_nonneg)
  ultimately show ?thesis by (simp only: power_int_of_nat)
next
  case False
  let ?c = "\<lceil>1 / x\<rceil>"
  let ?j = "nat (bitlen (?c - 1) - 1)"
  have "1 < 1 / x" using False assms by simp
  then have c: "0 < ?c - 1" by (simp add: less_ceiling_iff)
  have b: "0 < bitlen (?c - 1)"
    using c bitlen_nonneg [of "?c - 1"] bitlen_eq_zero_iff [of "?c - 1"] by linarith
  have "2 ^ ?j \<le> ?c - 1" using bitlen_bounds [OF c] by simp
  then have "(of_int (2 ^ ?j) :: rat) \<le> of_int (?c - 1)" by (simp only: of_int_le_iff)
  then have "(2 ^ ?j :: rat) \<le> of_int ?c - 1" by simp
  moreover have "of_int ?c - 1 < 1 / x" by linarith
  ultimately have "(2 ^ ?j :: rat) < 1 / x" by linarith
  then have "x * 2 ^ ?j < 1" using assms by (simp add: field_simps)
  then have lt: "x < 1 / 2 ^ ?j" by (simp add: field_simps)
  have "exponent x + 1 = - int ?j" using False b by (simp add: exponent_def)
  then show ?thesis using lt by (simp only: powi_minus_nat)
qed

lemma round_half_even_error: "\<bar>of_int (round_half_even q) - q\<bar> \<le> 1 / 2"
proof -
  have "of_int \<lfloor>q\<rfloor> \<le> q" by simp
  moreover have "q < of_int \<lfloor>q\<rfloor> + 1" by linarith
  ultimately show ?thesis by (auto simp: round_half_even_def Let_def)
qed

lemma round_half_even_le: "q \<le> of_int N \<Longrightarrow> round_half_even q \<le> N"
proof -
  assume a: "q \<le> of_int N"
  have f: "\<lfloor>q\<rfloor> \<le> N" using a by (simp add: floor_le_iff)
  show ?thesis
  proof (cases "\<lfloor>q\<rfloor> = N")
    case True
    then have "q = of_int N" using a by (metis of_int_floor_le order_antisym)
    then show ?thesis by (simp add: round_half_even_def)
  next
    case False
    then have "\<lfloor>q\<rfloor> + 1 \<le> N" using f by simp
    then show ?thesis by (auto simp: round_half_even_def Let_def)
  qed
qed

lemma round_half_even_nonneg: "0 \<le> q \<Longrightarrow> 0 \<le> round_half_even q"
  by (auto simp: round_half_even_def Let_def)

lemma double_nonneg: "0 \<le> x \<Longrightarrow> 0 \<le> double x"
  by (auto simp: double_def Let_def intro!: mult_nonneg_nonneg round_half_even_nonneg divide_nonneg_nonneg)

lemma double_error:
  assumes "0 < x"
  shows "\<bar>double x - x\<bar> \<le> x / 2 ^ 53"
proof -
  let ?u = "(2::rat) powi (exponent x - 52)"
  have u: "0 < ?u" by simp
  have d: "double x = of_int (round_half_even (x / ?u)) * ?u"
    using assms by (simp add: double_def Let_def)
  have "\<bar>of_int (round_half_even (x / ?u)) - x / ?u\<bar> * ?u \<le> 1 / 2 * ?u"
    using round_half_even_error [of "x / ?u"] u by (intro mult_right_mono) simp_all
  moreover have "\<bar>of_int (round_half_even (x / ?u)) - x / ?u\<bar> * ?u = \<bar>double x - x\<bar>"
  proof -
    have "\<bar>of_int (round_half_even (x / ?u)) - x / ?u\<bar> * ?u
          = \<bar>(of_int (round_half_even (x / ?u)) - x / ?u) * ?u\<bar>"
      using u by (simp add: abs_mult)
    also have "(of_int (round_half_even (x / ?u)) - x / ?u) * ?u = double x - x"
      using u by (simp add: d left_diff_distrib)
    finally show ?thesis .
  qed
  moreover have "1 / 2 * ?u = 2 powi (exponent x) / 2 ^ 53"
    by (simp add: power_int_diff)
  moreover have "2 powi (exponent x) / 2 ^ 53 \<le> x / 2 ^ 53"
    using exponent_le [OF assms] by (simp add: divide_right_mono)
  ultimately show ?thesis by linarith
qed

lemma double_le:
  assumes "0 \<le> x" "x \<le> of_int c" "c < 2 ^ 53"
  shows "double x \<le> of_int c"
proof (cases "x = 0")
  case True
  then show ?thesis using assms by (simp add: double_def)
next
  case False
  then have x: "0 < x" using assms by simp
  let ?e = "exponent x"
  let ?u = "(2::rat) powi (?e - 52)"
  have u: "0 < ?u" by simp
  have "(2::rat) powi ?e \<le> of_int c" using exponent_le [OF x] assms by linarith
  also have "(of_int c :: rat) < 2 ^ 53" using assms(3)
    by (metis of_int_less_iff of_int_numeral of_int_power)
  finally have "(2::rat) powi ?e < 2 powi 53" by simp
  then have e: "?e < 53" by (rule power_int_le_imp_less_exp [rotated]) simp_all
  define j where "j = nat (52 - ?e)"
  have uj: "?u = 1 / 2 ^ j"
  proof -
    have "?e - 52 = - int j" using e by (simp add: j_def)
    then show ?thesis by (simp only: powi_minus_nat)
  qed
  have "x / ?u \<le> of_int c / ?u" using assms u by (simp add: divide_right_mono)
  also have "of_int c / ?u = of_int (c * 2 ^ j)" by (simp add: uj)
  finally have "round_half_even (x / ?u) \<le> c * 2 ^ j" by (rule round_half_even_le)
  then have "(of_int (round_half_even (x / ?u)) :: rat) \<le> of_int (c * 2 ^ j)"
    by (simp only: of_int_le_iff)
  then have le: "of_int (round_half_even (x / ?u)) * ?u \<le> of_int (c * 2 ^ j) * ?u"
    using u by (intro mult_right_mono) simp_all
  have "double x = of_int (round_half_even (x / ?u)) * ?u"
    using x by (simp add: double_def Let_def)
  also note le
  also have "of_int (c * 2 ^ j) * ?u = of_int c" by (simp add: uj)
  finally show ?thesis .
qed

lemma double_error0:
  assumes "0 \<le> x"
  shows "\<bar>double x - x\<bar> \<le> x / 2 ^ 53"
proof (cases "x = 0")
  case True
  then show ?thesis by (simp add: double_def)
next
  case False
  then have "0 < x" using assms by simp
  then show ?thesis by (rule double_error)
qed

lemma product_error:
  fixes a :: rat
  assumes a: "0 \<le> a" "a \<le> 1"
  shows "\<bar>double (double (double a * 100) * 10) - 1000 * a\<bar> \<le> 6000 / 2 ^ 53"
proof -
  define u :: rat where "u = 1 / 2 ^ 53"
  let ?a1 = "double a"
  let ?b1 = "double (?a1 * 100)"
  let ?c1 = "double (?b1 * 10)"
  have u: "0 < u" by (simp add: u_def)
  have err: "0 \<le> x \<Longrightarrow> \<bar>double x - x\<bar> \<le> x * u" for x
    using double_error0 [of x] by (simp add: u_def)
  have a1: "0 \<le> ?a1" "?a1 \<le> 1"
    using double_nonneg [OF a(1)] double_le [of a 1] a by simp_all
  have "a * u \<le> 1 * u" using a(2) u by (intro mult_right_mono) simp_all
  then have ea: "\<bar>?a1 - a\<bar> \<le> u" using err [OF a(1)] by simp
  have b: "0 \<le> ?a1 * 100" "?a1 * 100 \<le> of_int 100" using a1 by simp_all
  have b1: "0 \<le> ?b1" "?b1 \<le> 100"
    using double_nonneg [OF b(1)] double_le [OF b] by simp_all
  have "?a1 * 100 * u \<le> 100 * u" using b(2) u by (intro mult_right_mono) simp_all
  then have eb: "\<bar>?b1 - ?a1 * 100\<bar> \<le> 100 * u" using err [OF b(1)] by linarith
  have c: "0 \<le> ?b1 * 10" "?b1 * 10 \<le> of_int 1000" using b1 by simp_all
  have "?b1 * 10 * u \<le> 1000 * u" using c(2) u by (intro mult_right_mono) simp_all
  then have ec: "\<bar>?c1 - ?b1 * 10\<bar> \<le> 1000 * u" using err [OF c(1)] by linarith
  have "\<bar>?c1 - 1000 * a\<bar> \<le> 6000 * u" using ea eb ec u by linarith
  then show ?thesis by (simp add: u_def)
qed

lemma nearest_integer:
  fixes k n :: nat and y :: rat
  assumes n: "0 < n" "n < 2 ^ 32"
    and y: "\<bar>y - 1000 * (of_nat k / of_nat n)\<bar> \<le> 6000 / 2 ^ 53"
  shows "\<bar>of_int (Math_round y) - 1000 * (of_nat k / of_nat n)\<bar> \<le> (1 / 2 :: rat)"
proof -
  define m where "m = Math_round y"
  define t :: rat where "t = 1000 * (of_nat k / of_nat n)"
  define N :: rat where "N = 2 * of_nat n"
  define u :: rat where "u = 6000 / 2 ^ 53"
  have m: "of_int m \<le> y + 1 / 2" "y + 1 / 2 < of_int m + 1"
    unfolding m_def Math_round_def by linarith+
  have y': "\<bar>y - t\<bar> \<le> u" using y by (simp add: t_def u_def)
  have N: "0 < N" using n by (simp add: N_def)
  have tN: "t * N = of_int (2000 * int k)" using n by (simp add: t_def N_def)
  have hN: "1 / 2 * N = of_int (int n)" by (simp add: N_def)
  have mN: "of_int m * N = of_int (m * (2 * int n))" by (simp add: N_def)
  have small: "u * N < 1"
  proof -
    have "(of_nat n :: rat) < 2 ^ 32" using n(2)
      by (metis of_nat_less_iff of_nat_numeral of_nat_power)
    then show ?thesis by (simp add: u_def N_def)
  qed
  have up: "of_int m \<le> t + 1 / 2"
  proof (rule ccontr)
    assume "\<not> of_int m \<le> t + 1 / 2"
    then have "t + 1 / 2 < of_int m" by simp
    then have "(t + 1 / 2) * N < of_int m * N"
      using N by (intro mult_strict_right_mono) simp_all
    then have "(of_int (2000 * int k + int n) :: rat) < of_int (m * (2 * int n))"
      by (simp only: distrib_right tN hN mN of_int_add)
    then have "2000 * int k + int n < m * (2 * int n)" by (simp only: of_int_less_iff)
    then have "2000 * int k + int n + 1 \<le> m * (2 * int n)" by simp
    then have "(of_int (2000 * int k + int n + 1) :: rat) \<le> of_int (m * (2 * int n))"
      by (simp only: of_int_le_iff)
    then have 1: "t * N + 1 / 2 * N + 1 \<le> of_int m * N"
      by (simp only: tN hN mN of_int_add of_int_1)
    have "of_int m \<le> t + u + 1 / 2" using m(1) y' by linarith
    then have "of_int m * N \<le> (t + u + 1 / 2) * N"
      using N by (intro mult_right_mono) simp_all
    then have "of_int m * N \<le> t * N + u * N + 1 / 2 * N" by (simp only: distrib_right)
    then show False using 1 small by linarith
  qed
  have lo: "t - 1 / 2 \<le> of_int m"
  proof (rule ccontr)
    assume "\<not> t - 1 / 2 \<le> of_int m"
    then have "of_int m + 1 / 2 < t" by simp
    then have "(of_int m + 1 / 2) * N < t * N"
      using N by (intro mult_strict_right_mono) simp_all
    then have "(of_int (m * (2 * int n) + int n) :: rat) < of_int (2000 * int k)"
      by (simp only: distrib_right tN hN mN of_int_add)
    then have "m * (2 * int n) + int n < 2000 * int k" by (simp only: of_int_less_iff)
    then have "m * (2 * int n) + int n + 1 \<le> 2000 * int k" by simp
    then have "(of_int (m * (2 * int n) + int n + 1) :: rat) \<le> of_int (2000 * int k)"
      by (simp only: of_int_le_iff)
    then have 1: "of_int m * N + 1 / 2 * N + 1 \<le> t * N"
      by (simp only: tN hN mN of_int_add of_int_1)
    have "t \<le> of_int m + u + 1 / 2" using m(2) y' by linarith
    then have "t * N \<le> (of_int m + u + 1 / 2) * N"
      using N by (intro mult_right_mono) simp_all
    then have "t * N \<le> of_int m * N + u * N + 1 / 2 * N" by (simp only: distrib_right)
    then show False using 1 small by linarith
  qed
  show ?thesis using up lo unfolding m_def t_def by linarith
qed

text \<open>The doubles that the examples meet.\<close>

lemma double_values:
  "double 0 = 0" "double 1 = 1" "double (1 / 2) = 1 / 2" "double 25 = 25" "double 50 = 50"
  "double 100 = 100" "double 500 = 500" "double 1000 = 1000"
  by code_simp+

lemma Math_round_values: "Math_round 0 = 0" "Math_round 500 = 500" "Math_round 1000 = 1000"
  by code_simp+

lemma Math_round_two_of_three: "Math_round (double (double (double (2 / 3) * 100) * 10)) = 667"
  by code_simp

lemma Math_round_23_of_80: "Math_round (double (double (double (23 / 80) * 100) * 10)) = 287"
  by code_simp

subsection \<open>The score\<close>

lemma Math_round_bounds:
  assumes "0 \<le> x" "x \<le> of_int m"
  shows "0 \<le> Math_round x \<and> Math_round x \<le> m"
proof -
  have "\<lfloor>x + 1 / 2\<rfloor> \<le> m" using assms(2) by (simp add: floor_le_iff)
  moreover have "0 \<le> \<lfloor>x + 1 / 2\<rfloor>" using assms(1) by simp
  ultimately show ?thesis by (simp add: Math_round_def)
qed

lemma calculateTrustScore_returned:
  assumes "returned_loans studentId d \<noteq> []"
  shows "calculateTrustScore studentId d =
     double (of_int (Math_round (double (double (double
       (of_nat (length (filter on_time (returned_loans studentId d))) /
        of_nat (length (returned_loans studentId d))) * 100) * 10))) / 10)"
  using assms by (simp add: calculateTrustScore_def Let_def)

lemma calculateTrustScore_bounds:
  "0 \<le> calculateTrustScore studentId d \<and> calculateTrustScore studentId d \<le> 100"
proof (cases "returned_loans studentId d = []")
  case True
  then show ?thesis by (simp add: calculateTrustScore_def)
next
  case False
  let ?n = "length (returned_loans studentId d)"
  let ?k = "length (filter on_time (returned_loans studentId d))"
  let ?a = "of_nat ?k / of_nat ?n :: rat"
  let ?a1 = "double ?a"
  let ?b1 = "double (?a1 * 100)"
  let ?c1 = "double (?b1 * 10)"
  let ?m = "Math_round ?c1"
  have n: "0 < ?n" using False by simp
  have kn: "?k \<le> ?n" by (rule length_filter_le)
  have a: "0 \<le> ?a" "?a \<le> of_int 1" using n kn by simp_all
  have a1: "0 \<le> ?a1" "?a1 \<le> 1"
    using double_nonneg [OF a(1)] double_le [OF a] by simp_all
  have b: "0 \<le> ?a1 * 100" "?a1 * 100 \<le> of_int 100" using a1 by simp_all
  have b1: "0 \<le> ?b1" "?b1 \<le> 100"
    using double_nonneg [OF b(1)] double_le [OF b] by simp_all
  have c: "0 \<le> ?b1 * 10" "?b1 * 10 \<le> of_int 1000" using b1 by simp_all
  have c1: "0 \<le> ?c1" "?c1 \<le> of_int 1000"
    using double_nonneg [OF c(1)] double_le [OF c] by simp_all
  have m: "0 \<le> ?m \<and> ?m \<le> 1000" using Math_round_bounds [OF c1] .
  have r: "0 \<le> (of_int ?m :: rat) / 10" "(of_int ?m :: rat) / 10 \<le> of_int 100"
    using m by simp_all
  have "0 \<le> double (of_int ?m / 10)" "double (of_int ?m / 10) \<le> 100"
    using double_nonneg [OF r(1)] double_le [OF r] by simp_all
  then show ?thesis unfolding calculateTrustScore_returned [OF False] by simp
qed

lemma calculateTrustScore_no_returns:
  "returned_loans studentId d = [] \<Longrightarrow> calculateTrustScore studentId d = 50"
  by (simp add: calculateTrustScore_def)

lemma calculateTrustScore_two_of_three:
  assumes "length (returned_loans studentId d) = 3"
    and "length (filter on_time (returned_loans studentId d)) = 2"
  shows "calculateTrustScore studentId d = double (667 / 10)"
proof -
  have "returned_loans studentId d \<noteq> []" using assms(1) by auto
  then show ?thesis
    unfolding calculateTrustScore_returned [OF \<open>returned_loans studentId d \<noteq> []\<close>] assms
    by (simp add: Math_round_two_of_three)
qed

text \<open>
  With fewer than \<open>2 ^ 32\<close> returned loans (the bound of an array length), the score is the
  double of a number of tenths that is a nearest integer to the exact number of tenths; which
  one it is when the exact number lies half-way is not said here.
\<close>

lemma calculateTrustScore_nearest_tenth:
  assumes "returned_loans studentId d \<noteq> []"
    and "length (returned_loans studentId d) < 2 ^ 32"
  shows "\<exists>m. calculateTrustScore studentId d = double (of_int m / 10) \<and>
     \<bar>of_int m - 1000 * (of_nat (length (filter on_time (returned_loans studentId d))) /
        of_nat (length (returned_loans studentId d)))\<bar> \<le> (1 / 2 :: rat)"
proof -
  let ?n = "length (returned_loans studentId d)"
  let ?k = "length (filter on_time (returned_loans studentId d))"
  let ?a = "of_nat ?k / of_nat ?n :: rat"
  let ?y = "double (double (double ?a * 100) * 10)"
  have n: "0 < ?n" using assms(1) by simp
  have kn: "?k \<le> ?n" by (rule length_filter_le)
  have a: "0 \<le> ?a" "?a \<le> 1" using n kn by simp_all
  have "\<bar>of_int (Math_round ?y) - 1000 * ?a\<bar> \<le> (1 / 2 :: rat)"
    using n assms(2) product_error [OF a] by (rule nearest_integer)
  then show ?thesis using calculateTrustScore_returned [OF assms(1)] by blast
qed

lemma calculateTrustScore_loans:
  "loans d' = loans d \<Longrightarrow> calculateTrustScore studentId d' = calculateTrustScore studentId d"
  by (simp add: calculateTrustScore_def returned_loans_def)

lemma eighty_returns_loans:
  "length (returned_loans ''s1'' eighty_returns) = 80 \<and>
   length (filter on_time (returned_loans ''s1'' eighty_returns)) = 23"
  by (simp add: returned_loans_def eighty_returns_def db_of_def loan_of_def on_time_def
      filter_map comp_def)

text \<open>
  C4. For a student with 80 returned loans of which 23 came back by their due time, the exact
  percentage is 28.75 and the reference definition of the specification rounds it to 28.8.
  \<open>calculateTrustScore\<close> divides first: the double of 23 / 80 lies below 0.2875, the product
  with 100 and with 10 is the double 287.49999999999994, which \<open>Math.round\<close> takes to 287, and
  the score is the double 28.7, not the double 28.8.
\<close>

theorem calculateTrustScore_23_of_80:
  "unique_loan_ids eighty_returns \<and>
   length (returned_loans ''s1'' eighty_returns) = 80 \<and>
   length (filter on_time (returned_loans ''s1'' eighty_returns)) = 23 \<and>
   double (double (double (23 / 80) * 100) * 10) = 5057753487769599 / 17592186044416 \<and>
   calculateTrustScore ''s1'' eighty_returns = double (287 / 10) \<and>
   computeTrustScore_spec ''s1'' eighty_returns = 288 / 10 \<and>
   double (287 / 10) \<noteq> double (288 / 10) \<and>
   calculateTrustScore ''s1'' eighty_returns \<noteq> computeTrustScore_spec ''s1'' eighty_returns"
proof -
  have u: "unique_loan_ids eighty_returns" by code_simp
  have r: "returned_loans ''s1'' eighty_returns \<noteq> []"
    using eighty_returns_loans by auto
  have p: "double (double (double (23 / 80) * 100) * 10) = 5057753487769599 / 17592186044416"
    by code_simp
  have c: "calculateTrustScore ''s1'' eighty_returns = double (287 / 10)"
    unfolding calculateTrustScore_returned [OF r]
    by (simp add: eighty_returns_loans Math_round_23_of_80)
  have "filter (\<lambda>l. ln_student_id l = ''s1'' \<and> returned_at l \<noteq> None) (loans eighty_returns)
        = returned_loans ''s1'' eighty_returns"
    by (simp add: returned_loans_def)
  moreover have "(\<lambda>l. case returned_at l of Some r \<Rightarrow> r \<le> due_at l | None \<Rightarrow> False) = on_time"
    by (auto simp: on_time_def fun_eq_iff split: option.splits)
  ultimately have s: "computeTrustScore_spec ''s1'' eighty_returns = round1 (100 * (23 / 80))"
    using r by (simp add: computeTrustScore_spec_def Let_def eighty_returns_loans)
  have "round1 (100 * (23 / 80)) = 288 / 10" by code_simp
  moreover have "double (287 / 10) \<noteq> double (288 / 10)" by code_simp
  moreover have "double (287 / 10) \<noteq> 288 / 10" by code_simp
  ultimately show ?thesis using u eighty_returns_loans p c s by simp
qed


lemmas example_defs = empty_db_def alice_def ball_def loan_of_def entry_of_def db_of_def
  suspend_form_def borrowed_form_def available_form_def lent_def three_returns_def uuids_def
  suspended_def lapsed_def enrolled_def borrowing_def suspended_lent_def two_late_def
  three_late_def repeat_offender_def listed_row_def returned_late_def late_form_def
  stale_suspension_def

lemmas handler_defs = handleConfirm_def handleMarkReturned_def handleDeleteLoan_def
  handleSubmit_def handleManualSubmit_def handleBlacklistSubmit_def updateData_def
  openBlacklistModal_def try_catch_def confirm_item_def new_loan_def add_loan_def
  update_loan_def delete_loan_def get_loan_def add_equipment_def update_equipment_def
  add_student_def update_student_def get_student_def add_blacklistEntry_def
  modify_blacklistEntries_def store_write_def skip_def update_row_def delete_row_def
  get_row_def has_key_def or_null_def transaction_def message_def dec.simps digit_def
  last6_def dec_int_def

section \<open>The handlers when the store accepts every write\<close>

lemma handleMarkReturned_ok:
  assumes "writes_left d = None"
  shows "handleMarkReturned sid (Some k) now d =
     (Some (Success ''Loan marked as returned''),
      (let d1 = d\<lparr>loans := update_row ln_id k
                  (\<lambda>l. l\<lparr>returned_at := Some now, ln_status := Returned, is_overdue := False\<rparr>)
                  (loans d)\<rparr>;
           d2 = (case get_loan d k of
                   Some loan \<Rightarrow>
                     d1\<lparr>equipment := update_row eq_id (ln_equipment_id loan)
                           (\<lambda>e. e\<lparr>eq_status := Available, eq_updated_at := now\<rparr>) (equipment d)\<rparr>
                 | None \<Rightarrow> d1)
       in d2\<lparr>students := update_row st_id sid
              (\<lambda>s. s\<lparr>trust_score := calculateTrustScore sid d1, st_updated_at := now\<rparr>)
              (students d)\<rparr>))"
  using assms
  by (simp add: handleMarkReturned_def try_catch_def update_loan_def update_equipment_def
      update_student_def skip_def get_loan_def get_row_update_row Let_def store_write_None
      calculateTrustScore_def returned_loans_def split: option.splits)

lemma handleDeleteLoan_ok:
  assumes "writes_left d = None"
  shows "handleDeleteLoan sid (Some k) now d =
     (Some (Success ''Loan entry deleted successfully''),
      (let d1 = (case get_loan d k of
                   Some loan \<Rightarrow>
                     if returned_at loan = None
                     then d\<lparr>equipment := update_row eq_id (ln_equipment_id loan)
                            (\<lambda>e. e\<lparr>eq_status := Available, eq_updated_at := now\<rparr>) (equipment d)\<rparr>
                     else d
                 | None \<Rightarrow> d);
           d2 = d1\<lparr>loans := delete_row ln_id k (loans d)\<rparr>
       in d2\<lparr>students := update_row st_id sid
              (\<lambda>s. s\<lparr>trust_score := calculateTrustScore sid d2, st_updated_at := now\<rparr>)
              (students d)\<rparr>))"
  using assms
  by (simp add: handleDeleteLoan_def try_catch_def delete_loan_def update_equipment_def
      update_student_def skip_def get_loan_def Let_def store_write_None calculateTrustScore_def
      returned_loans_def split: option.splits)

lemma new_loan_fields [simp]:
  "ln_id (new_loan st user now due k x) = k"
  "ln_equipment_id (new_loan st user now due k x) = x"
  "returned_at (new_loan st user now due k x) = None"
  by (simp_all add: new_loan_def)

lemma confirm_item_ok:
  assumes "writes_left d = None"
  shows "confirm_item st user now due gen (i, x) d =
    (if has_key ln_id (gen i) (loans d) then (Some ConstraintError, d)
     else (None, d\<lparr>loans := loans d @ [new_loan st user now due (gen i) x],
                   equipment := update_row eq_id x
                     (\<lambda>e. e\<lparr>eq_status := Borrowed, eq_updated_at := now\<rparr>) (equipment d)\<rparr>))"
  using assms
  by (simp add: confirm_item_def add_loan_def update_equipment_def store_write_None)

lemma handleConfirm_loop:
  "snd (handleConfirm (Some st) (x # xs) dur user now gen d) =
   snd (run_all (map (confirm_item st user now (now + dur * 60000) gen) (enumerate 0 (x # xs))) d)"
  by (simp add: handleConfirm_def try_catch_def Let_def split: prod.splits option.splits)

section \<open>Unique ids\<close>

lemma map_key_update_row:
  "(\<And>r. key (f r) = key r) \<Longrightarrow> map key (update_row key k f rows) = map key rows"
  by (induction rows) (auto simp: update_row_def)

lemma return_unique:
  assumes "unique_loan_ids d" "writes_left d = None"
  shows "unique_loan_ids (snd (handleMarkReturned sid sel now d))"
proof (cases sel)
  case None
  then show ?thesis using assms by (simp add: handleMarkReturned_def)
next
  case (Some k)
  then show ?thesis using assms(1)
    by (simp add: handleMarkReturned_ok [OF assms(2)] Let_def unique_loan_ids_def
        map_key_update_row split: option.splits)
qed

lemma delete_unique:
  assumes "unique_loan_ids d" "writes_left d = None"
  shows "unique_loan_ids (snd (handleDeleteLoan sid sel now d))"
proof (cases sel)
  case None
  then show ?thesis using assms by (simp add: handleDeleteLoan_def)
next
  case (Some k)
  then show ?thesis using assms(1)
    by (simp add: handleDeleteLoan_ok [OF assms(2)] Let_def unique_loan_ids_def
        delete_row_def distinct_map_filter split: option.splits)
qed

lemma confirm_item_unique:
  assumes "unique_loan_ids d" "writes_left d = None"
  shows "unique_loan_ids (snd (confirm_item st user now due gen (i, x) d))"
  using assms(1)
  by (simp add: confirm_item_ok [OF assms(2)] unique_loan_ids_def has_key_def new_loan_def)


section \<open>Equipment and open loans\<close>

lemma return_preserves:
  assumes inv: "open_loans_match_status d" and w: "writes_left d = None"
    and u: "unique_loan_ids d" and op: "not_yet_returned d (Some k)"
  shows "open_loans_match_status (snd (handleMarkReturned sid (Some k) now d))"
proof (cases "get_loan d k")
  case None
  then have "\<forall>r \<in> set (loans d). ln_id r \<noteq> k" unfolding get_loan_def by (rule get_row_None)
  then have "update_row ln_id k f (loans d) = loans d" for f by (rule update_row_absent)
  then show ?thesis using inv None
    by (simp add: Let_def handleMarkReturned_ok [OF w] open_loans_match_status_def open_loans_def)
next
  case (Some l)
  then have l: "l \<in> set (loans d)" "ln_id l = k"
    unfolding get_loan_def by (auto dest: get_row_Some)
  have lo: "returned_at l = None" using op Some by (simp add: not_yet_returned_def)
  let ?m = "\<lambda>l. l\<lparr>returned_at := Some now, ln_status := Returned, is_overdue := False\<rparr>"
  let ?y = "ln_equipment_id l"
  let ?d' = "snd (handleMarkReturned sid (Some k) now d)"
  have ld: "loans ?d' = update_row ln_id k ?m (loans d)"
    using Some by (simp add: Let_def handleMarkReturned_ok [OF w])
  have cnt: "length (open_loans ?d' x) + (if ?y = x then 1 else 0) = length (open_loans d x)" for x
    using count_update_row
      [of ln_id "loans d" l k "\<lambda>l. ln_equipment_id l = x \<and> returned_at l = None" ?m] u l lo
    by (simp add: ld unique_loan_ids_def open_loans_def)
  show ?thesis
    unfolding open_loans_match_status_def
  proof
    fix e assume "e \<in> set (equipment ?d')"
    then have "e \<in> set (update_row eq_id ?y
        (\<lambda>e. e\<lparr>eq_status := Available, eq_updated_at := now\<rparr>) (equipment d))"
      using Some by (simp add: Let_def handleMarkReturned_ok [OF w])
    then obtain e0 where e0: "e0 \<in> set (equipment d)"
      "e = (if eq_id e0 = ?y then e0\<lparr>eq_status := Available, eq_updated_at := now\<rparr> else e0)"
      by (auto dest: in_update_row)
    have i0: "length (open_loans d (eq_id e0)) = (if eq_status e0 = Borrowed then 1 else 0)"
      using inv e0(1) by (simp add: open_loans_match_status_def)
    show "length (open_loans ?d' (eq_id e)) = (if eq_status e = Borrowed then 1 else 0)"
    proof (cases "eq_id e0 = ?y")
      case True
      then show ?thesis using cnt [of ?y] i0 e0(2) by (simp split: if_splits)
    next
      case False
      then show ?thesis using cnt [of "eq_id e0"] i0 e0(2) by simp
    qed
  qed
qed

lemma delete_preserves:
  assumes inv: "open_loans_match_status d" and w: "writes_left d = None"
    and u: "unique_loan_ids d"
  shows "open_loans_match_status (snd (handleDeleteLoan sid (Some k) now d))"
proof (cases "get_loan d k")
  case None
  then have "\<forall>r \<in> set (loans d). ln_id r \<noteq> k" unfolding get_loan_def by (rule get_row_None)
  then have "delete_row ln_id k (loans d) = loans d" by (rule delete_row_absent)
  then show ?thesis using inv None
    by (simp add: Let_def handleDeleteLoan_ok [OF w] open_loans_match_status_def open_loans_def)
next
  case (Some l)
  then have l: "l \<in> set (loans d)" "ln_id l = k"
    unfolding get_loan_def by (auto dest: get_row_Some)
  let ?y = "ln_equipment_id l"
  let ?d' = "snd (handleDeleteLoan sid (Some k) now d)"
  have cnt: "length (open_loans ?d' x) + (if ?y = x \<and> returned_at l = None then 1 else 0)
      = length (open_loans d x)" for x
    using count_delete_row
      [of ln_id "loans d" l k "\<lambda>l. ln_equipment_id l = x \<and> returned_at l = None"] u l Some
    by (simp add: Let_def handleDeleteLoan_ok [OF w] unique_loan_ids_def open_loans_def)
  show ?thesis
    unfolding open_loans_match_status_def
  proof
    fix e assume e: "e \<in> set (equipment ?d')"
    show "length (open_loans ?d' (eq_id e)) = (if eq_status e = Borrowed then 1 else 0)"
    proof (cases "returned_at l = None")
      case True
      from e have "e \<in> set (update_row eq_id ?y
          (\<lambda>e. e\<lparr>eq_status := Available, eq_updated_at := now\<rparr>) (equipment d))"
        using Some True by (simp add: Let_def handleDeleteLoan_ok [OF w])
      then obtain e0 where e0: "e0 \<in> set (equipment d)"
        "e = (if eq_id e0 = ?y then e0\<lparr>eq_status := Available, eq_updated_at := now\<rparr> else e0)"
        by (auto dest: in_update_row)
      have i0: "length (open_loans d (eq_id e0)) = (if eq_status e0 = Borrowed then 1 else 0)"
        using inv e0(1) by (simp add: open_loans_match_status_def)
      show ?thesis
      proof (cases "eq_id e0 = ?y")
        case True
        then show ?thesis
          using cnt [of ?y] i0 e0(2) \<open>returned_at l = None\<close> by (simp split: if_splits)
      next
        case False
        then show ?thesis using cnt [of "eq_id e0"] i0 e0(2) by simp
      qed
    next
      case False
      from e have "e \<in> set (equipment d)"
        using Some False by (auto simp: Let_def handleDeleteLoan_ok [OF w])
      then have "length (open_loans d (eq_id e)) = (if eq_status e = Borrowed then 1 else 0)"
        using inv by (simp add: open_loans_match_status_def)
      then show ?thesis using cnt [of "eq_id e"] False by simp
    qed
  qed
qed

text \<open>
  One round of the borrowing loop on an available item keeps the invariant, whether the
  loan was added or its key refused, and leaves the other items as they were.
\<close>

lemma confirm_item_preserves:
  assumes inv: "open_loans_match_status d" and w: "writes_left d = None"
    and u: "unique_loan_ids d" and av: "all_available d [x]"
    and r: "confirm_item st user now due gen (i, x) d = (r, d')"
  shows "open_loans_match_status d' \<and> writes_left d' = None \<and> unique_loan_ids d' \<and>
         (\<forall>e' \<in> set (equipment d').
            \<exists>e \<in> set (equipment d). eq_id e' = eq_id e \<and> (eq_id e \<noteq> x \<longrightarrow> e' = e))"
proof (cases "has_key ln_id (gen i) (loans d)")
  case True
  then have "d' = d" using r by (simp add: confirm_item_ok [OF w])
  then show ?thesis using inv w u by auto
next
  case False
  then have d': "d' = d\<lparr>loans := loans d @ [new_loan st user now due (gen i) x],
      equipment := update_row eq_id x
        (\<lambda>e. e\<lparr>eq_status := Borrowed, eq_updated_at := now\<rparr>) (equipment d)\<rparr>"
    using r by (simp add: confirm_item_ok [OF w])
  have ol: "length (open_loans d' y) = length (open_loans d y) + (if y = x then 1 else 0)" for y
    by (auto simp: d' open_loans_def)
  have "length (open_loans d' (eq_id e')) = (if eq_status e' = Borrowed then 1 else 0)"
    if "e' \<in> set (equipment d')" for e'
  proof -
    from that obtain e0 where e0: "e0 \<in> set (equipment d)"
      "e' = (if eq_id e0 = x then e0\<lparr>eq_status := Borrowed, eq_updated_at := now\<rparr> else e0)"
      by (auto simp: d' dest: in_update_row)
    have i0: "length (open_loans d (eq_id e0)) = (if eq_status e0 = Borrowed then 1 else 0)"
      using inv e0(1) by (simp add: open_loans_match_status_def)
    show ?thesis
    proof (cases "eq_id e0 = x")
      case True
      then have "eq_status e0 = Available" using av e0(1) by (simp add: all_available_def)
      then show ?thesis using True i0 e0(2) ol [of x] by simp
    next
      case False
      then show ?thesis using i0 e0(2) ol [of "eq_id e0"] by simp
    qed
  qed
  moreover have "\<exists>e \<in> set (equipment d). eq_id e' = eq_id e \<and> (eq_id e \<noteq> x \<longrightarrow> e' = e)"
    if "e' \<in> set (equipment d')" for e'
    using that by (auto simp: d' update_row_def)
  moreover have "unique_loan_ids d'"
    using confirm_item_unique [OF u w, of st user now due gen i x] r by simp
  ultimately show ?thesis using w by (auto simp: open_loans_match_status_def d')
qed

lemma confirm_loop_preserves:
  "open_loans_match_status d \<Longrightarrow> writes_left d = None \<Longrightarrow> unique_loan_ids d \<Longrightarrow>
   distinct xs \<Longrightarrow> all_available d xs \<Longrightarrow>
   open_loans_match_status
     (snd (run_all (map (confirm_item st user now due gen) (enumerate i xs)) d)) \<and>
   unique_loan_ids
     (snd (run_all (map (confirm_item st user now due gen) (enumerate i xs)) d))"
proof (induction xs arbitrary: i d)
  case Nil
  then show ?case by simp
next
  case (Cons x xs)
  obtain r d' where r: "confirm_item st user now due gen (i, x) d = (r, d')"
    by (cases "confirm_item st user now due gen (i, x) d")
  have av: "all_available d [x]"
    using Cons.prems(5) by (simp add: all_available_def)
  note step = confirm_item_preserves [OF Cons.prems(1,2,3) av r]
  show ?case
  proof (cases r)
    case (Some e)
    then show ?thesis using r step by simp
  next
    case None
    have "all_available d' xs"
      unfolding all_available_def
    proof (intro ballI impI)
      fix e' assume e': "e' \<in> set (equipment d')" "eq_id e' \<in> set xs"
      then obtain e where e: "e \<in> set (equipment d)" "eq_id e' = eq_id e" "eq_id e \<noteq> x \<longrightarrow> e' = e"
        using step by blast
      have "eq_id e \<noteq> x" using e'(2) e(2) Cons.prems(4) by auto
      then show "eq_status e' = Available"
        using e e'(2) Cons.prems(5) by (auto simp: all_available_def)
    qed
    moreover have "distinct xs" using Cons.prems(4) by simp
    ultimately have
      "open_loans_match_status
         (snd (run_all (map (confirm_item st user now due gen) (enumerate (Suc i) xs)) d')) \<and>
       unique_loan_ids
         (snd (run_all (map (confirm_item st user now due gen) (enumerate (Suc i) xs)) d'))"
      using Cons.IH step by blast
    then show ?thesis using r None by simp
  qed
qed

lemma confirm_preserves:
  assumes "open_loans_match_status d" "writes_left d = None" "unique_loan_ids d"
    "distinct xs" "all_available d xs"
  shows "open_loans_match_status (snd (handleConfirm sel xs dur user now gen d)) \<and>
         unique_loan_ids (snd (handleConfirm sel xs dur user now gen d))"
proof (cases sel)
  case None
  then show ?thesis using assms(1,3) by (simp add: handleConfirm_def)
next
  case (Some st)
  show ?thesis
  proof (cases xs)
    case Nil
    then show ?thesis using assms(1,3) Some by (simp add: handleConfirm_def)
  next
    case (Cons y ys)
    show ?thesis
      using confirm_loop_preserves [OF assms, of st user now "now + dur * 60000" gen 0]
      unfolding Some Cons handleConfirm_loop .
  qed
qed

lemma match_implies_iff: "open_loans_match_status d \<Longrightarrow> borrowed_iff_one_open_loan d"
  by (auto simp: open_loans_match_status_def borrowed_iff_one_open_loan_def)

text \<open>
  C1, as amended. In a store with unique loan ids where a borrowed item has exactly one open
  loan and every other item has none, an item is borrowed if and only if exactly one open
  loan references it, and this state is kept by borrowing a selection of distinct, available
  items, by marking a loan returned that was not yet returned, and by deleting a loan, as
  long as the store accepts the writes.
\<close>

theorem loan_handlers_keep_equipment_consistent:
  assumes "open_loans_match_status d" and "unique_loan_ids d" and "writes_left d = None"
  shows "borrowed_iff_one_open_loan d \<and>
    (distinct selectedEquipment \<and> all_available d selectedEquipment \<longrightarrow>
       open_loans_match_status
         (snd (handleConfirm selectedStudent selectedEquipment selectedDuration user now
                 generateUUID d)) \<and>
       unique_loan_ids
         (snd (handleConfirm selectedStudent selectedEquipment selectedDuration user now
                 generateUUID d))) \<and>
    (not_yet_returned d selectedLoan \<longrightarrow>
       open_loans_match_status (snd (handleMarkReturned student_id selectedLoan now d)) \<and>
       unique_loan_ids (snd (handleMarkReturned student_id selectedLoan now d))) \<and>
    open_loans_match_status (snd (handleDeleteLoan student_id selectedLoan now d)) \<and>
    unique_loan_ids (snd (handleDeleteLoan student_id selectedLoan now d))"
proof -
  have a: "borrowed_iff_one_open_loan d" using assms(1) by (rule match_implies_iff)
  have b: "open_loans_match_status (snd (handleMarkReturned student_id selectedLoan now d))"
    if "not_yet_returned d selectedLoan"
  proof (cases selectedLoan)
    case None
    then show ?thesis using assms(1) by (simp add: handleMarkReturned_def)
  next
    case (Some k)
    then show ?thesis using return_preserves [OF assms(1,3,2)] that by simp
  qed
  have c: "open_loans_match_status (snd (handleDeleteLoan student_id selectedLoan now d))"
  proof (cases selectedLoan)
    case None
    then show ?thesis using assms(1) by (simp add: handleDeleteLoan_def)
  next
    case (Some k)
    then show ?thesis using delete_preserves [OF assms(1,3,2)] by simp
  qed
  show ?thesis
    using a b c confirm_preserves [OF assms(1,3,2)] return_unique [OF assms(2,3)]
      delete_unique [OF assms(2,3)]
    by blast
qed

text \<open>The hypotheses of C1 hold for Alice borrowing, returning and losing the record of a ball.\<close>

theorem loan_handlers_keep_equipment_consistent_witness:
  "open_loans_match_status (db_of [alice] [ball] [] []) \<and>
   unique_loan_ids (db_of [alice] [ball] [] []) \<and>
   writes_left (db_of [alice] [ball] [] []) = None \<and>
   distinct [''e1''] \<and> all_available (db_of [alice] [ball] [] []) [''e1''] \<and>
   open_loans_match_status
     (snd (handleConfirm (Some alice) [''e1''] 60 None 10 uuids (db_of [alice] [ball] [] []))) \<and>
   open_loans_match_status lent \<and> unique_loan_ids lent \<and> writes_left lent = None \<and>
   not_yet_returned lent (Some ''l0'') \<and>
   borrowed_iff_one_open_loan lent \<and>
   open_loans_match_status (snd (handleMarkReturned ''s1'' (Some ''l0'') 15 lent)) \<and>
   open_loans_match_status (snd (handleDeleteLoan ''s1'' (Some ''l0'') 15 lent))"
proof -
  have a: "open_loans_match_status (db_of [alice] [ball] [] []) \<and>
      unique_loan_ids (db_of [alice] [ball] [] []) \<and>
      writes_left (db_of [alice] [ball] [] []) = None \<and>
      distinct [''e1''] \<and> all_available (db_of [alice] [ball] [] []) [''e1'']"
    by (simp add: open_loans_match_status_def unique_loan_ids_def all_available_def
        open_loans_def example_defs)
  have b: "open_loans_match_status lent \<and> unique_loan_ids lent \<and> writes_left lent = None \<and>
      not_yet_returned lent (Some ''l0'')"
    by (simp add: open_loans_match_status_def unique_loan_ids_def not_yet_returned_def
        open_loans_def get_loan_def get_row_def example_defs)
  show ?thesis
    using a b
      loan_handlers_keep_equipment_consistent
        [of "db_of [alice] [ball] [] []" "[''e1'']" "Some alice" 60 None 10 uuids]
      loan_handlers_keep_equipment_consistent [of lent _ _ _ _ _ _ "Some ''l0''" "''s1''"]
    by blast
qed

text \<open>
  C1, as stated, fails for the inventory form, which writes the status it is given: an item
  added as borrowed has no loan, and a borrowed item edited to available keeps its open loan.
\<close>

theorem manual_status_breaks_consistency:
  "borrowed_iff_one_open_loan empty_db \<and>
   \<not> borrowed_iff_one_open_loan
       (snd (handleSubmit None borrowed_form (Some ''img'') 1 ''e2'' empty_db)) \<and>
   borrowed_iff_one_open_loan lent \<and>
   \<not> borrowed_iff_one_open_loan
       (snd (handleSubmit (Some (ball\<lparr>eq_status := Borrowed\<rparr>)) available_form None 30 ''e3'' lent))"
  by (simp add: borrowed_iff_one_open_loan_def open_loans_def handler_defs example_defs)


lemmas pass_defs = checkAtRiskStudents_def lazy_expiry_def expired_def lift_suspension_def
  studentsWithLateReturns_def atRiskEntry_def lateReturnsSince_def warningThreshold_def
  suspensionCount_def totalLateReturns_def returnedLoans_def late_def lastSuspensionDate_def
  lastSuspension_def inactiveSuspensions_def allSuspensions_def dismissed_def dismissedKey_def

section \<open>Failures part-way\<close>

text \<open>
  C2. Borrowing and returning are not run inside \<open>db.transaction\<close>: when the store rejects
  the second write of the handler, the first one stays. After \<open>handleConfirm\<close> the loan
  exists and the ball is still available; after \<open>handleMarkReturned\<close> the loan is returned,
  the ball is still borrowed and the score is not recomputed.
\<close>

theorem store_failure_leaves_partial_loan_state:
  "handleConfirm (Some alice) [''e1''] 60 None 10 uuids
       ((db_of [alice] [ball] [] [])\<lparr>writes_left := Some 1\<rparr>) =
     (Some (Failure ''Failed to create loan: The store rejected the request.''),
      (db_of [alice] [ball] [new_loan alice None 10 3600010 ''l0'' ''e1''] [])
        \<lparr>writes_left := Some 0\<rparr>) \<and>
   handleMarkReturned ''s1'' (Some ''l0'') 15 (lent\<lparr>writes_left := Some 1\<rparr>) =
     (Some (Failure ''Failed to mark loan as returned''),
      (db_of [alice] [ball\<lparr>eq_status := Borrowed\<rparr>]
         [(loan_of ''l0'' 20 None)\<lparr>returned_at := Some 15, ln_status := Returned\<rparr>] [])
        \<lparr>writes_left := Some 0\<rparr>)"
  by (simp add: handler_defs example_defs)

section \<open>Active suspension entries\<close>

text \<open>
  C3. Saving the suspension of a student who is already suspended adds a second active
  entry, and so does a new suspension after the at-risk pass has lifted an expired one,
  since the pass leaves the old entry active.
\<close>

theorem second_suspension_leaves_two_active_entries:
  "map is_blacklisted (students suspended) = [True] \<and>
   length (active_entries suspended ''s1'') = 1 \<and>
   length (active_entries
     (snd (handleBlacklistSubmit (openBlacklistModal suspended ''s1'') suspend_form 20 ''b2''
             suspended)) ''s1'') = 2 \<and>
   map is_blacklisted (students lapsed) = [False] \<and>
   length (active_entries lapsed ''s1'') = 1 \<and>
   length (active_entries
     (snd (handleBlacklistSubmit (openBlacklistModal lapsed ''s1'')
             (suspend_form\<lparr>f_blacklist_end_date := Some 300\<rparr>) 210 ''b3'' lapsed)) ''s1'') = 2"
  by (simp add: active_entries_def handler_defs pass_defs example_defs)


section \<open>The stored score\<close>

lemma updateStudentTrustScore_ok:
  assumes "writes_left d = None"
  shows "updateStudentTrustScore sid now d =
     (None, d\<lparr>students := update_row st_id sid
        (\<lambda>s. s\<lparr>trust_score := calculateTrustScore sid d, st_updated_at := now\<rparr>) (students d)\<rparr>)"
  using assms by (simp add: updateStudentTrustScore_def update_student_def store_write_None)

lemma recomputed_row:
  "\<forall>s \<in> set (update_row st_id sid (\<lambda>s. s\<lparr>trust_score := v, st_updated_at := now\<rparr>) rows).
     st_id s = sid \<longrightarrow> trust_score s = v"
proof (intro ballI impI)
  fix s
  assume "s \<in> set (update_row st_id sid (\<lambda>s. s\<lparr>trust_score := v, st_updated_at := now\<rparr>) rows)"
    and k: "st_id s = sid"
  then obtain s0 where
    s0: "s = (if st_id s0 = sid then s0\<lparr>trust_score := v, st_updated_at := now\<rparr> else s0)"
    by (blast dest: in_update_row)
  show "trust_score s = v"
  proof (cases "st_id s0 = sid")
    case True
    then show ?thesis using s0 by simp
  next
    case False
    then show ?thesis using s0 k by simp
  qed
qed

lemma returned_loans_loans:
  "loans d' = loans d \<Longrightarrow> returned_loans sid d' = returned_loans sid d"
  by (simp add: returned_loans_def)

lemma handleMarkReturned_stored:
  assumes "writes_left d = None"
  shows "stored_score_is (snd (handleMarkReturned sid (Some k) now d)) sid
           (calculateTrustScore sid (snd (handleMarkReturned sid (Some k) now d)))"
proof -
  let ?d1 = "d\<lparr>loans := update_row ln_id k
      (\<lambda>l. l\<lparr>returned_at := Some now, ln_status := Returned, is_overdue := False\<rparr>) (loans d)\<rparr>"
  have l: "loans (snd (handleMarkReturned sid (Some k) now d)) = loans ?d1"
    by (simp add: handleMarkReturned_ok [OF assms] Let_def split: option.splits)
  have s: "students (snd (handleMarkReturned sid (Some k) now d)) =
      update_row st_id sid (\<lambda>s. s\<lparr>trust_score := calculateTrustScore sid ?d1, st_updated_at := now\<rparr>)
        (students d)"
    by (simp add: handleMarkReturned_ok [OF assms] Let_def split: option.splits)
  show ?thesis
    unfolding stored_score_is_def s calculateTrustScore_loans [OF l]
    by (rule recomputed_row)
qed

lemma handleDeleteLoan_stored:
  assumes "writes_left d = None"
  shows "stored_score_is (snd (handleDeleteLoan sid (Some k) now d)) sid
           (calculateTrustScore sid (snd (handleDeleteLoan sid (Some k) now d)))"
proof -
  let ?d1 = "d\<lparr>loans := delete_row ln_id k (loans d)\<rparr>"
  have l: "loans (snd (handleDeleteLoan sid (Some k) now d)) = loans ?d1"
    by (simp add: handleDeleteLoan_ok [OF assms] Let_def split: option.splits)
  have s: "students (snd (handleDeleteLoan sid (Some k) now d)) =
      update_row st_id sid (\<lambda>s. s\<lparr>trust_score := calculateTrustScore sid ?d1, st_updated_at := now\<rparr>)
        (students d)"
    by (simp add: handleDeleteLoan_ok [OF assms] Let_def calculateTrustScore_def
        returned_loans_def split: option.splits)
  show ?thesis
    unfolding stored_score_is_def s calculateTrustScore_loans [OF l]
    by (rule recomputed_row)
qed

lemma updateStudentTrustScore_stored:
  assumes "writes_left d = None"
  shows "stored_score_is (snd (updateStudentTrustScore sid now d)) sid
           (calculateTrustScore sid (snd (updateStudentTrustScore sid now d)))"
proof -
  have l: "loans (snd (updateStudentTrustScore sid now d)) = loans d"
    by (simp add: updateStudentTrustScore_ok [OF assms])
  have s: "students (snd (updateStudentTrustScore sid now d)) =
      update_row st_id sid (\<lambda>s. s\<lparr>trust_score := calculateTrustScore sid d, st_updated_at := now\<rparr>)
        (students d)"
    by (simp add: updateStudentTrustScore_ok [OF assms])
  show ?thesis
    unfolding stored_score_is_def s calculateTrustScore_loans [OF l]
    by (rule recomputed_row)
qed

text \<open>
  C5, as amended. \<open>calculateTrustScore\<close> gives 50 for a student without returned loans,
  and that is the score stored for such a student by every recomputation
  (\<open>updateStudentTrustScore\<close>, marking a loan returned, deleting a loan), as long as the
  store accepts the writes. What is stored between two recomputations is not covered.
\<close>

theorem recomputed_score_is_default:
  assumes "writes_left d = None"
  shows "(returned_loans studentId d = [] \<longrightarrow> calculateTrustScore studentId d = 50) \<and>
    (returned_loans studentId (snd (updateStudentTrustScore studentId now d)) = [] \<longrightarrow>
       stored_score_is (snd (updateStudentTrustScore studentId now d)) studentId 50) \<and>
    (returned_loans studentId (snd (handleMarkReturned studentId (Some k) now d)) = [] \<longrightarrow>
       stored_score_is (snd (handleMarkReturned studentId (Some k) now d)) studentId 50) \<and>
    (returned_loans studentId (snd (handleDeleteLoan studentId (Some k) now d)) = [] \<longrightarrow>
       stored_score_is (snd (handleDeleteLoan studentId (Some k) now d)) studentId 50)"
proof -
  have "stored_score_is d' studentId 50"
    if "stored_score_is d' studentId (calculateTrustScore studentId d')"
      and "returned_loans studentId d' = []" for d'
    using that by (simp add: calculateTrustScore_no_returns)
  then show ?thesis
    using calculateTrustScore_no_returns [of studentId d]
      updateStudentTrustScore_stored [OF assms, of studentId now]
      handleMarkReturned_stored [OF assms, of studentId k now]
      handleDeleteLoan_stored [OF assms, of studentId k now]
    by blast
qed

text \<open>Alice, who holds one open loan and has returned none, is stored with 50 each time.\<close>

theorem recomputed_score_is_default_witness:
  "writes_left lent = None \<and> returned_loans ''s1'' lent = [] \<and>
   calculateTrustScore ''s1'' lent = 50 \<and>
   returned_loans ''s1'' (snd (updateStudentTrustScore ''s1'' 30 lent)) = [] \<and>
   stored_score_is (snd (updateStudentTrustScore ''s1'' 30 lent)) ''s1'' 50 \<and>
   returned_loans ''s1'' (snd (handleMarkReturned ''s1'' (Some ''l9'') 30 lent)) = [] \<and>
   stored_score_is (snd (handleMarkReturned ''s1'' (Some ''l9'') 30 lent)) ''s1'' 50 \<and>
   returned_loans ''s1'' (snd (handleDeleteLoan ''s1'' (Some ''l0'') 30 lent)) = [] \<and>
   stored_score_is (snd (handleDeleteLoan ''s1'' (Some ''l0'') 30 lent)) ''s1'' 50"
proof -
  have w: "writes_left lent = None"
    by (simp add: example_defs)
  have a: "returned_loans ''s1'' lent = []"
    by (simp add: returned_loans_def example_defs)
  have b: "returned_loans ''s1'' (snd (updateStudentTrustScore ''s1'' 30 lent)) = []"
    by (simp add: returned_loans_def updateStudentTrustScore_def handler_defs example_defs)
  have c: "returned_loans ''s1'' (snd (handleMarkReturned ''s1'' (Some ''l9'') 30 lent)) = []"
    by (simp add: returned_loans_def handler_defs example_defs)
  have e: "returned_loans ''s1'' (snd (handleDeleteLoan ''s1'' (Some ''l0'') 30 lent)) = []"
    by (simp add: returned_loans_def handler_defs example_defs)
  show ?thesis
    using w a b c e recomputed_score_is_default [OF w, of "''s1''" 30 "''l9''"]
      recomputed_score_is_default [OF w, of "''s1''" 30 "''l0''"]
    by blast
qed

text \<open>
  C5, as stated, fails: Bob, just added by hand, is stored with 100, and Alice, suspended
  with no returned loan, with 25.
\<close>

theorem stored_score_not_default:
  "returned_loans ''s2'' enrolled = [] \<and> map trust_score (students enrolled) = [100] \<and>
   returned_loans ''s1'' suspended = [] \<and> map trust_score (students suspended) = [25] \<and>
   \<not> stored_score_is enrolled ''s2'' 50 \<and> \<not> stored_score_is suspended ''s1'' 50"
  by (simp add: stored_score_is_def returned_loans_def handler_defs example_defs)


section \<open>Marking a loan returned\<close>

lemma get_loan_absent:
  "get_loan d k = None \<Longrightarrow> update_row ln_id k f (loans d) = loans d"
  unfolding get_loan_def by (rule update_row_absent) (rule get_row_None)

lemma available_row:
  "\<forall>e \<in> set (update_row eq_id x (\<lambda>e. e\<lparr>eq_status := Available, eq_updated_at := now\<rparr>) rows).
     eq_id e = x \<longrightarrow> eq_status e = Available"
proof (intro ballI impI)
  fix e
  assume "e \<in> set (update_row eq_id x (\<lambda>e. e\<lparr>eq_status := Available, eq_updated_at := now\<rparr>) rows)"
    and k: "eq_id e = x"
  then obtain e0 where
    e0: "e = (if eq_id e0 = x then e0\<lparr>eq_status := Available, eq_updated_at := now\<rparr> else e0)"
    by (blast dest: in_update_row)
  show "eq_status e = Available"
  proof (cases "eq_id e0 = x")
    case True
    then show ?thesis using e0 by simp
  next
    case False
    then show ?thesis using e0 k by simp
  qed
qed

text \<open>
  C7, as amended. \<open>handleMarkReturned\<close> has no not-found error: when the store accepts the
  writes it reports success. For an id without a loan it leaves the loans, the equipment
  and the suspension entries as they are and still stores the recomputed score (and the
  time) on the student's row. For an existing loan it sets \<open>returned_at\<close> to now, the status
  to returned and \<open>is_overdue\<close> to false, sets the referenced equipment to available, and
  stores the score recomputed over the loans as they are after the return.
\<close>

theorem handleMarkReturned_effect:
  assumes "writes_left d = None"
  shows "(let d' = snd (handleMarkReturned student_id (Some k) now d) in
     fst (handleMarkReturned student_id (Some k) now d) = Some (Success ''Loan marked as returned'') \<and>
     blacklistEntries d' = blacklistEntries d \<and>
     stored_score_is d' student_id (calculateTrustScore student_id d') \<and>
     (get_loan d k = None \<longrightarrow>
        loans d' = loans d \<and> equipment d' = equipment d \<and>
        students d' = update_row st_id student_id
          (\<lambda>s. s\<lparr>trust_score := calculateTrustScore student_id d, st_updated_at := now\<rparr>)
          (students d)) \<and>
     (\<forall>loan. get_loan d k = Some loan \<longrightarrow>
        get_loan d' k =
          Some (loan\<lparr>returned_at := Some now, ln_status := Returned, is_overdue := False\<rparr>) \<and>
        equipment d' = update_row eq_id (ln_equipment_id loan)
          (\<lambda>e. e\<lparr>eq_status := Available, eq_updated_at := now\<rparr>) (equipment d) \<and>
        (\<forall>e \<in> set (equipment d'). eq_id e = ln_equipment_id loan \<longrightarrow> eq_status e = Available) \<and>
        students d' = update_row st_id student_id
          (\<lambda>s. s\<lparr>trust_score := calculateTrustScore student_id d', st_updated_at := now\<rparr>)
          (students d)))"
proof -
  let ?m = "\<lambda>l. l\<lparr>returned_at := Some now, ln_status := Returned, is_overdue := False\<rparr>"
  let ?d' = "snd (handleMarkReturned student_id (Some k) now d)"
  let ?d1 = "d\<lparr>loans := update_row ln_id k ?m (loans d)\<rparr>"
  have l: "loans ?d' = loans ?d1"
    by (simp add: handleMarkReturned_ok [OF assms] Let_def split: option.splits)
  have c: "calculateTrustScore student_id ?d' = calculateTrustScore student_id ?d1"
    using l by (rule calculateTrustScore_loans)
  have s: "students ?d' = update_row st_id student_id
      (\<lambda>s. s\<lparr>trust_score := calculateTrustScore student_id ?d', st_updated_at := now\<rparr>) (students d)"
    unfolding c by (simp add: handleMarkReturned_ok [OF assms] Let_def split: option.splits)
  have f: "fst (handleMarkReturned student_id (Some k) now d) = Some (Success ''Loan marked as returned'')"
    by (simp add: handleMarkReturned_ok [OF assms])
  have b: "blacklistEntries ?d' = blacklistEntries d"
    by (simp add: handleMarkReturned_ok [OF assms] Let_def split: option.splits)
  have n: "loans ?d' = loans d \<and> equipment ?d' = equipment d \<and>
      students ?d' = update_row st_id student_id
          (\<lambda>s. s\<lparr>trust_score := calculateTrustScore student_id d, st_updated_at := now\<rparr>)
          (students d)" if "get_loan d k = None"
  proof -
    have "loans ?d' = loans d" using l get_loan_absent [OF that] by simp
    moreover from this have "calculateTrustScore student_id ?d' = calculateTrustScore student_id d"
      by (rule calculateTrustScore_loans)
    moreover have "equipment ?d' = equipment d"
      using that by (simp add: handleMarkReturned_ok [OF assms] Let_def)
    ultimately show ?thesis using s by simp
  qed
  have e: "get_loan ?d' k = Some (?m loan) \<and>
      equipment ?d' = update_row eq_id (ln_equipment_id loan)
        (\<lambda>e. e\<lparr>eq_status := Available, eq_updated_at := now\<rparr>) (equipment d) \<and>
      (\<forall>e \<in> set (equipment ?d'). eq_id e = ln_equipment_id loan \<longrightarrow> eq_status e = Available)"
    if "get_loan d k = Some loan" for loan
  proof -
    have "get_loan ?d' k = map_option ?m (get_loan d k)"
      unfolding get_loan_def l by (simp add: get_row_update_row)
    moreover have "equipment ?d' = update_row eq_id (ln_equipment_id loan)
        (\<lambda>e. e\<lparr>eq_status := Available, eq_updated_at := now\<rparr>) (equipment d)"
      using that by (simp add: handleMarkReturned_ok [OF assms] Let_def)
    ultimately show ?thesis using that available_row by simp
  qed
  show ?thesis
    unfolding Let_def
    using f b handleMarkReturned_stored [OF assms, of student_id k now] n e s by blast
qed

text \<open>Both cases of C7 on the store where Alice holds the ball: no loan \<open>l9\<close>, a loan \<open>l0\<close>.\<close>

theorem handleMarkReturned_effect_witness:
  "writes_left lent = None \<and> get_loan lent ''l9'' = None \<and>
   loans (snd (handleMarkReturned ''s1'' (Some ''l9'') 15 lent)) = loans lent \<and>
   get_loan lent ''l0'' = Some (loan_of ''l0'' 20 None) \<and>
   get_loan (snd (handleMarkReturned ''s1'' (Some ''l0'') 15 lent)) ''l0'' =
     Some ((loan_of ''l0'' 20 None)
             \<lparr>returned_at := Some 15, ln_status := Returned, is_overdue := False\<rparr>) \<and>
   stored_score_is (snd (handleMarkReturned ''s1'' (Some ''l0'') 15 lent)) ''s1''
     (calculateTrustScore ''s1'' (snd (handleMarkReturned ''s1'' (Some ''l0'') 15 lent)))"
proof -
  have w: "writes_left lent = None" by (simp add: example_defs)
  have a: "get_loan lent ''l9'' = None"
    by (simp add: get_loan_def get_row_def example_defs)
  have b: "get_loan lent ''l0'' = Some (loan_of ''l0'' 20 None)"
    by (simp add: get_loan_def get_row_def example_defs)
  show ?thesis
    using w a b handleMarkReturned_effect [OF w, of "''s1''" "''l9''" 15]
      handleMarkReturned_effect [OF w, of "''s1''" "''l0''" 15]
    unfolding Let_def by blast
qed

text \<open>
  C7, as stated, fails: for an id without a loan the handler reports success, and the row of
  the student changes (the stored 100 becomes the recomputed 50, the time 1 becomes 15).
\<close>

theorem missing_loan_is_reported_returned:
  "get_loan (db_of [alice\<lparr>trust_score := 100\<rparr>] [ball] [] []) ''l9'' = None \<and>
   handleMarkReturned ''s1'' (Some ''l9'') 15 (db_of [alice\<lparr>trust_score := 100\<rparr>] [ball] [] []) =
     (Some (Success ''Loan marked as returned''),
      db_of [alice\<lparr>trust_score := 50, st_updated_at := 15\<rparr>] [ball] [] [])"
  by (simp add: handler_defs example_defs calculateTrustScore_def returned_loans_def)


section \<open>Deleting a loan\<close>

lemma unique_row:
  "distinct (map key rows) \<Longrightarrow> get_row key k rows = Some l \<Longrightarrow> r \<in> set rows \<Longrightarrow> key r = k
   \<Longrightarrow> r = l"
  using get_row_Some [of key k rows l] by (auto simp: distinct_map inj_on_def)

lemma get_row_delete_row: "get_row key k (delete_row key k rows) = None"
  by (induction rows) (auto simp: get_row_def delete_row_def)

lemma scores_recomputed:
  "\<forall>s \<in> set rows. st_id s = sid \<longrightarrow> trust_score s = v \<Longrightarrow>
   map (\<lambda>s. (st_id s, trust_score s))
     (update_row st_id sid (\<lambda>s. s\<lparr>trust_score := v, st_updated_at := now\<rparr>) rows)
   = map (\<lambda>s. (st_id s, trust_score s)) rows"
  by (induction rows) (simp_all add: update_row_def)

text \<open>
  C9, as amended. \<open>handleDeleteLoan\<close> removes the loan and stores the score recomputed over
  the loans that remain. If the loan was open, the equipment it references becomes
  available and the recomputed score equals what \<open>calculateTrustScore\<close> gave before the
  deletion, so the stored scores are unchanged when the student's stored score was that
  value. If the loan was returned, the equipment is untouched and the returned loans that
  enter the score are the former ones without the deleted loan.
\<close>

theorem handleDeleteLoan_effect:
  assumes "writes_left d = None" and "unique_loan_ids d" and "get_loan d k = Some loan"
  shows "(let d' = snd (handleDeleteLoan student_id (Some k) now d) in
     get_loan d' k = None \<and> loans d' = delete_row ln_id k (loans d) \<and>
     stored_score_is d' student_id (calculateTrustScore student_id d') \<and>
     (returned_at loan = None \<longrightarrow>
        equipment d' = update_row eq_id (ln_equipment_id loan)
          (\<lambda>e. e\<lparr>eq_status := Available, eq_updated_at := now\<rparr>) (equipment d) \<and>
        (\<forall>e \<in> set (equipment d'). eq_id e = ln_equipment_id loan \<longrightarrow> eq_status e = Available) \<and>
        calculateTrustScore student_id d' = calculateTrustScore student_id d \<and>
        (stored_score_is d student_id (calculateTrustScore student_id d) \<longrightarrow>
           stored_scores d' = stored_scores d)) \<and>
     (returned_at loan \<noteq> None \<longrightarrow>
        equipment d' = equipment d \<and>
        returned_loans student_id d' =
          filter (\<lambda>l. ln_id l \<noteq> k) (returned_loans student_id d)))"
proof -
  let ?d' = "snd (handleDeleteLoan student_id (Some k) now d)"
  let ?d1 = "d\<lparr>loans := delete_row ln_id k (loans d)\<rparr>"
  have l: "loans ?d' = delete_row ln_id k (loans d)"
    by (simp add: handleDeleteLoan_ok [OF assms(1)] Let_def split: option.splits)
  have g: "get_loan ?d' k = None"
    unfolding get_loan_def l by (rule get_row_delete_row)
  have c: "calculateTrustScore student_id ?d' = calculateTrustScore student_id ?d1"
    by (rule calculateTrustScore_loans) (simp add: l)
  have s: "students ?d' = update_row st_id student_id
      (\<lambda>s. s\<lparr>trust_score := calculateTrustScore student_id ?d', st_updated_at := now\<rparr>) (students d)"
    unfolding c
    by (simp add: handleDeleteLoan_ok [OF assms(1)] Let_def calculateTrustScore_def
        returned_loans_def split: option.splits)
  have r: "returned_loans student_id ?d' = filter (\<lambda>l. ln_id l \<noteq> k) (returned_loans student_id d)"
    by (auto simp: returned_loans_def l delete_row_def intro: filter_cong)
  have o: "equipment ?d' = update_row eq_id (ln_equipment_id loan)
          (\<lambda>e. e\<lparr>eq_status := Available, eq_updated_at := now\<rparr>) (equipment d) \<and>
        (\<forall>e \<in> set (equipment ?d'). eq_id e = ln_equipment_id loan \<longrightarrow> eq_status e = Available) \<and>
        calculateTrustScore student_id ?d' = calculateTrustScore student_id d \<and>
        (stored_score_is d student_id (calculateTrustScore student_id d) \<longrightarrow>
           stored_scores ?d' = stored_scores d)"
    if op: "returned_at loan = None"
  proof -
    have e: "equipment ?d' = update_row eq_id (ln_equipment_id loan)
          (\<lambda>e. e\<lparr>eq_status := Available, eq_updated_at := now\<rparr>) (equipment d)"
      using assms(3) op by (simp add: handleDeleteLoan_ok [OF assms(1)] Let_def)
    have "ln_id x \<noteq> k" if "x \<in> set (loans d)" "returned_at x \<noteq> None" for x
      using unique_row [of ln_id "loans d" k loan x] assms(2,3) that op
      by (auto simp: unique_loan_ids_def get_loan_def)
    then have "\<forall>x \<in> set (returned_loans student_id d). ln_id x \<noteq> k"
      by (simp add: returned_loans_def)
    then have "filter (\<lambda>l. ln_id l \<noteq> k) (returned_loans student_id d) = returned_loans student_id d"
      by (simp add: filter_id_conv)
    then have "returned_loans student_id ?d' = returned_loans student_id d" using r by simp
    then have cc: "calculateTrustScore student_id ?d' = calculateTrustScore student_id d"
      by (simp add: calculateTrustScore_def)
    have "stored_scores ?d' = stored_scores d"
      if "stored_score_is d student_id (calculateTrustScore student_id d)"
      using scores_recomputed [of "students d" student_id "calculateTrustScore student_id d" now]
        that
      by (simp add: stored_scores_def stored_score_is_def s cc)
    then show ?thesis using e cc available_row by simp
  qed
  have t: "equipment ?d' = equipment d" if "returned_at loan \<noteq> None"
    using assms(3) that by (auto simp: handleDeleteLoan_ok [OF assms(1)] Let_def)
  show ?thesis
    unfolding Let_def
    using g l handleDeleteLoan_stored [OF assms(1), of student_id k now] o t r by blast
qed


text \<open>Both cases of C9: Alice's open loan of the ball, and the late one of her three returns.\<close>

theorem handleDeleteLoan_effect_witness:
  "writes_left lent = None \<and> unique_loan_ids lent \<and>
   get_loan lent ''l0'' = Some (loan_of ''l0'' 20 None) \<and>
   returned_at (loan_of ''l0'' 20 None) = None \<and>
   stored_score_is lent ''s1'' (calculateTrustScore ''s1'' lent) \<and>
   get_loan (snd (handleDeleteLoan ''s1'' (Some ''l0'') 30 lent)) ''l0'' = None \<and>
   stored_scores (snd (handleDeleteLoan ''s1'' (Some ''l0'') 30 lent)) = stored_scores lent \<and>
   writes_left three_returns = None \<and> unique_loan_ids three_returns \<and>
   get_loan three_returns ''l3'' = Some (loan_of ''l3'' 20 (Some 25)) \<and>
   returned_at (loan_of ''l3'' 20 (Some 25)) \<noteq> None \<and>
   equipment (snd (handleDeleteLoan ''s1'' (Some ''l3'') 30 three_returns)) =
     equipment three_returns \<and>
   returned_loans ''s1'' (snd (handleDeleteLoan ''s1'' (Some ''l3'') 30 three_returns)) =
     filter (\<lambda>l. ln_id l \<noteq> ''l3'') (returned_loans ''s1'' three_returns)"
proof -
  have a: "writes_left lent = None \<and> unique_loan_ids lent \<and>
      get_loan lent ''l0'' = Some (loan_of ''l0'' 20 None) \<and>
      returned_at (loan_of ''l0'' 20 None) = None"
    by (simp add: unique_loan_ids_def get_loan_def get_row_def example_defs)
  have b: "stored_score_is lent ''s1'' (calculateTrustScore ''s1'' lent)"
    by (simp add: stored_score_is_def calculateTrustScore_def returned_loans_def example_defs)
  have c: "writes_left three_returns = None \<and> unique_loan_ids three_returns \<and>
      get_loan three_returns ''l3'' = Some (loan_of ''l3'' 20 (Some 25)) \<and>
      returned_at (loan_of ''l3'' 20 (Some 25)) \<noteq> None"
    by (simp add: unique_loan_ids_def get_loan_def get_row_def example_defs)
  show ?thesis
    using a b c
      handleDeleteLoan_effect [of lent "''l0''" "loan_of ''l0'' 20 None" "''s1''" 30]
      handleDeleteLoan_effect
        [of three_returns "''l3''" "loan_of ''l3'' 20 (Some 25)" "''s1''" 30]
    unfolding Let_def by blast
qed

text \<open>
  C9, as stated, fails where the stored score is not the recomputed one: deleting the open
  loan of Bob, stored with 100 since he was added, leaves him with 50, and deleting the open
  loan of Alice, stored with 25 since her suspension, leaves her with 50.
\<close>

theorem deleting_open_loan_changes_stored_score:
  "stored_scores borrowing = [(''s2'', 100)] \<and> map returned_at (loans borrowing) = [None] \<and>
   stored_scores (snd (handleDeleteLoan ''s2'' (Some ''l0'') 20 borrowing)) = [(''s2'', 50)] \<and>
   stored_scores suspended_lent = [(''s1'', 25)] \<and>
   map returned_at (loans suspended_lent) = [None] \<and>
   stored_scores (snd (handleDeleteLoan ''s1'' (Some ''l0'') 20 suspended_lent)) = [(''s1'', 50)]"
  by (simp add: stored_scores_def handler_defs example_defs calculateTrustScore_def
      returned_loans_def)


section \<open>The penalty of a suspension\<close>

lemma handleBlacklistSubmit_students:
  "students (snd (handleBlacklistSubmit (Some sel) form now uuid d)) = students d \<or>
   students (snd (handleBlacklistSubmit (Some sel) form now uuid d)) =
     update_row st_id (st_id sel) (updateData sel form now (f_blacklist_end_date form)) (students d)"
  by (simp add: handleBlacklistSubmit_def try_catch_def transaction_def update_student_def
      store_write_def add_blacklistEntry_def modify_blacklistEntries_def skip_def Let_def
      split: option.splits nat.splits)

lemma scores_without_penalty:
  "is_blacklisted sel \<or> \<not> f_is_blacklisted form \<Longrightarrow>
   map (\<lambda>s. (st_id s, trust_score s)) (update_row st_id k (updateData sel form now e) rows)
   = map (\<lambda>s. (st_id s, trust_score s)) rows"
  by (induction rows) (auto simp: update_row_def updateData_def Let_def)

lemma no_penalty:
  assumes "is_blacklisted sel \<or> \<not> f_is_blacklisted form"
  shows "stored_scores (snd (handleBlacklistSubmit (Some sel) form now uuid d)) = stored_scores d"
  using handleBlacklistSubmit_students [of sel form now uuid d] scores_without_penalty [OF assms]
  unfolding stored_scores_def by auto

lemma handleBlacklistSubmit_ok:
  assumes "writes_left d = None" "f_is_blacklisted form" "f_blacklist_end_date form = Some t"
    "\<not> has_key bl_id uuid (blacklistEntries d)"
  shows "handleBlacklistSubmit (Some sel) form now uuid d =
    (Some (Success ''Student access updated''),
     d\<lparr>students := update_row st_id (st_id sel) (updateData sel form now (Some t)) (students d),
       blacklistEntries := blacklistEntries d @
         [\<lparr>bl_id = uuid, bl_student_id = st_id sel, blacklisted_by_user_id = None,
           start_date = now, end_date = t, reason = f_blacklist_reason form, is_active = True,
           bl_created_at = now\<rparr>]\<rparr>)"
  using assms
  by (simp add: handleBlacklistSubmit_def try_catch_def transaction_def update_student_def
      store_write_None add_blacklistEntry_def Let_def)

lemma updateData_id [simp]: "st_id (updateData sel form now e s) = st_id s"
  by (simp add: updateData_def Let_def)

text \<open>
  What the handler stores is computed from the selection, the row that the page holds: with
  the switch on and a selection that is not flagged, the row of the store gets
  \<open>max 0 (s * 0.5)\<close> for the score \<open>s\<close> of the selection, whatever score the store holds.
\<close>

lemma penalty_of_selection:
  assumes "writes_left d = None" "f_is_blacklisted form" "f_blacklist_end_date form = Some t"
    "\<not> has_key bl_id uuid (blacklistEntries d)" "\<not> is_blacklisted sel"
    "get_student d (st_id sel) = Some row"
  shows "map_option trust_score
           (get_student (snd (handleBlacklistSubmit (Some sel) form now uuid d)) (st_id sel))
         = Some (max 0 (trust_score sel * (1 / 2)))"
proof -
  have "get_student (snd (handleBlacklistSubmit (Some sel) form now uuid d)) (st_id sel)
      = Some (updateData sel form now (Some t) row)"
    using assms(6)
    by (simp add: handleBlacklistSubmit_ok [OF assms(1-4)] get_student_def get_row_update_row)
  then show ?thesis using assms(2,5) by (simp add: updateData_def Let_def)
qed

text \<open>
  Saving the modal for a selection that is flagged as suspended, or with the switch off,
  leaves every stored score as it is, whatever the store does. When the selection is the
  current row of the store, suspending a student who is not suspended (a date in the form, a
  fresh entry id, the store accepting the writes) stores \<open>max 0 (old * 0.5)\<close> and marks the
  student suspended, and saving the modal once more, reopened on the stored row, leaves the
  stored scores unchanged.
\<close>

lemma penalty_with_fresh_selection:
  "(is_blacklisted selectedStudent \<longrightarrow>
      stored_scores (snd (handleBlacklistSubmit (Some selectedStudent) blacklistForm now uuid d))
        = stored_scores d) \<and>
   (\<not> f_is_blacklisted blacklistForm \<longrightarrow>
      stored_scores (snd (handleBlacklistSubmit (Some selectedStudent) blacklistForm now uuid d))
        = stored_scores d) \<and>
   (\<not> is_blacklisted selectedStudent \<and> f_is_blacklisted blacklistForm \<and>
    f_blacklist_end_date blacklistForm \<noteq> None \<and> writes_left d = None \<and>
    \<not> has_key bl_id uuid (blacklistEntries d) \<and>
    get_student d (st_id selectedStudent) = Some selectedStudent \<longrightarrow>
      (let d1 = snd (handleBlacklistSubmit (Some selectedStudent) blacklistForm now uuid d) in
         map_option trust_score (get_student d1 (st_id selectedStudent)) =
           Some (max 0 (trust_score selectedStudent * (1 / 2))) \<and>
         map_option is_blacklisted (get_student d1 (st_id selectedStudent)) = Some True \<and>
         stored_scores
           (snd (handleBlacklistSubmit (openBlacklistModal d1 (st_id selectedStudent))
                   blacklistForm2 now2 uuid2 d1)) = stored_scores d1))"
proof -
  let ?d1 = "snd (handleBlacklistSubmit (Some selectedStudent) blacklistForm now uuid d)"
  have a: "stored_scores ?d1 = stored_scores d"
    if "is_blacklisted selectedStudent \<or> \<not> f_is_blacklisted blacklistForm"
    using no_penalty [OF that] by simp
  have b: "map_option trust_score (get_student ?d1 (st_id selectedStudent)) =
           Some (max 0 (trust_score selectedStudent * (1 / 2))) \<and>
         map_option is_blacklisted (get_student ?d1 (st_id selectedStudent)) = Some True \<and>
         stored_scores
           (snd (handleBlacklistSubmit (openBlacklistModal ?d1 (st_id selectedStudent))
                   blacklistForm2 now2 uuid2 ?d1)) = stored_scores ?d1"
    if h: "\<not> is_blacklisted selectedStudent" "f_is_blacklisted blacklistForm"
      "f_blacklist_end_date blacklistForm \<noteq> None" "writes_left d = None"
      "\<not> has_key bl_id uuid (blacklistEntries d)"
      "get_student d (st_id selectedStudent) = Some selectedStudent"
  proof -
    from h(3) obtain t where t: "f_blacklist_end_date blacklistForm = Some t" by auto
    let ?s1 = "updateData selectedStudent blacklistForm now (Some t) selectedStudent"
    have g: "get_student ?d1 (st_id selectedStudent) = Some ?s1"
      using h(6)
      by (simp add: handleBlacklistSubmit_ok [OF h(4) h(2) t h(5)] get_student_def
          get_row_update_row)
    have p: "trust_score ?s1 = max 0 (trust_score selectedStudent * (1 / 2))"
      "is_blacklisted ?s1"
      using h(1,2) by (simp_all add: updateData_def Let_def)
    have "stored_scores
           (snd (handleBlacklistSubmit (openBlacklistModal ?d1 (st_id selectedStudent))
                   blacklistForm2 now2 uuid2 ?d1)) = stored_scores ?d1"
      using no_penalty [of ?s1 blacklistForm2 now2 uuid2 ?d1] p(2) g
      by (simp add: openBlacklistModal_def)
    then show ?thesis using g p by simp
  qed
  show ?thesis unfolding Let_def using a b by blast
qed

text \<open>
  C6. The penalty is computed from the row that the page holds, and the page does not load
  its list again after the profile modal has written a score. Bob is listed with the score
  100 of his creation while he holds the ball; marking his loan returned late stores 0;
  suspending him from the listed row then stores 50, half of the score that the store no
  longer holds, where \<open>max 0 (old * 0.5)\<close> of the stored score is 0, as the same save from a
  freshly loaded row stores.
\<close>

theorem stale_selection_halves_outdated_score:
  "map_option trust_score listed_row = Some 100 \<and>
   map_option is_blacklisted listed_row = Some False \<and>
   stored_scores borrowing = [(''s2'', 100)] \<and>
   fst (handleMarkReturned ''s2'' (Some ''l0'') 4000000 borrowing)
     = Some (Success ''Loan marked as returned'') \<and>
   stored_scores returned_late = [(''s2'', 0)] \<and>
   map is_blacklisted (students returned_late) = [False] \<and>
   fst (handleBlacklistSubmit listed_row late_form 4000100 ''b1'' returned_late)
     = Some (Success ''Student access updated'') \<and>
   map is_blacklisted (students stale_suspension) = [True] \<and>
   stored_scores stale_suspension = [(''s2'', 50)] \<and>
   stored_scores
     (snd (handleBlacklistSubmit (openBlacklistModal returned_late ''s2'') late_form 4000100 ''b1''
             returned_late)) = [(''s2'', 0)]"
  by (simp add: stored_scores_def handler_defs example_defs calculateTrustScore_def
      returned_loans_def on_time_def double_values Math_round_values)


section \<open>The at-risk pass\<close>

lemma update_student_frame:
  "loans (snd (update_student k f d)) = loans d \<and>
   equipment (snd (update_student k f d)) = equipment d \<and>
   blacklistEntries (snd (update_student k f d)) = blacklistEntries d"
  by (simp add: update_student_def store_write_def split: option.splits nat.splits)

lemma lazy_expiry_frame:
  "loans (snd (lazy_expiry now snapshot d)) = loans d \<and>
   equipment (snd (lazy_expiry now snapshot d)) = equipment d \<and>
   blacklistEntries (snd (lazy_expiry now snapshot d)) = blacklistEntries d"
proof (induction snapshot arbitrary: d)
  case Nil
  then show ?case by (simp add: lazy_expiry_def)
next
  case (Cons s snapshot)
  let ?step = "if expired now s then update_student (st_id s) (lift_suspension now) else skip"
  obtain r d1 where r: "?step d = (r, d1)" by (cases "?step d")
  have f: "loans d1 = loans d \<and> equipment d1 = equipment d \<and>
      blacklistEntries d1 = blacklistEntries d"
    using r update_student_frame [of "st_id s" "lift_suspension now" d]
    by (auto simp: skip_def split: if_splits)
  show ?case
  proof (cases r)
    case None
    then have "snd (lazy_expiry now (s # snapshot) d) = snd (lazy_expiry now snapshot d1)"
      using r by (simp add: lazy_expiry_def)
    then show ?thesis using Cons.IH [of d1] f by simp
  next
    case (Some e)
    then have "snd (lazy_expiry now (s # snapshot) d) = d1"
      using r by (simp add: lazy_expiry_def)
    then show ?thesis using f by simp
  qed
qed

lemma lift_suspension_twice [simp]:
  "lift_suspension now (lift_suspension now s) = lift_suspension now s"
  "st_id (lift_suspension now s) = st_id s"
  by (simp_all add: lift_suspension_def)

lemma lazy_expiry_ok:
  "writes_left d = None \<Longrightarrow>
   lazy_expiry now snapshot d =
     (None, d\<lparr>students :=
        map (\<lambda>s. if st_id s \<in> set (map st_id (filter (expired now) snapshot))
                  then lift_suspension now s else s) (students d)\<rparr>)"
proof (induction snapshot arbitrary: d)
  case Nil
  then show ?case by (simp add: lazy_expiry_def)
next
  case (Cons a snapshot)
  show ?case
  proof (cases "expired now a")
    case False
    then have "lazy_expiry now (a # snapshot) d = lazy_expiry now snapshot d"
      by (simp add: lazy_expiry_def skip_def)
    then show ?thesis using Cons.IH [OF Cons.prems] False by simp
  next
    case True
    let ?d1 = "d\<lparr>students := update_row st_id (st_id a) (lift_suspension now) (students d)\<rparr>"
    have w: "writes_left ?d1 = None" using Cons.prems by simp
    have "lazy_expiry now (a # snapshot) d = lazy_expiry now snapshot ?d1"
      using True Cons.prems
      by (simp add: lazy_expiry_def update_student_def store_write_None)
    moreover have
      "map (\<lambda>s. if st_id s \<in> set (map st_id (filter (expired now) snapshot))
                  then lift_suspension now s else s)
         (update_row st_id (st_id a) (lift_suspension now) (students d)) =
       map (\<lambda>s. if st_id s \<in> set (map st_id (filter (expired now) (a # snapshot)))
                  then lift_suspension now s else s) (students d)"
      using True by (simp add: update_row_def)
    ultimately show ?thesis using Cons.IH [OF w] by simp
  qed
qed

lemma lazy_expiry_rows:
  assumes "writes_left d = None" "unique_student_ids d"
  shows "students (snd (lazy_expiry now (students d) d)) =
     map (\<lambda>s. if expired now s then lift_suspension now s else s) (students d)"
proof -
  have "(st_id s \<in> set (map st_id (filter (expired now) (students d)))) = expired now s"
    if "s \<in> set (students d)" for s
  proof
    assume "st_id s \<in> set (map st_id (filter (expired now) (students d)))"
    then obtain x where x: "x \<in> set (students d)" "expired now x" "st_id x = st_id s" by auto
    then have "x = s"
      using assms(2) that by (auto simp: unique_student_ids_def distinct_map inj_on_def)
    then show "expired now s" using x by simp
  next
    assume "expired now s"
    then show "st_id s \<in> set (map st_id (filter (expired now) (students d)))"
      using that by auto
  qed
  then show ?thesis by (simp add: lazy_expiry_ok [OF assms(1)])
qed

lemma checkAtRiskStudents_snd:
  "snd (checkAtRiskStudents now localStorage d) = snd (lazy_expiry now (students d) d)"
  by (simp add: checkAtRiskStudents_def Let_def split: prod.splits option.splits)

lemma lastSuspension_entries:
  "blacklistEntries d' = blacklistEntries d \<Longrightarrow> lastSuspension d' k = lastSuspension d k"
  by (simp add: lastSuspension_def inactiveSuspensions_def allSuspensions_def)

lemma lastSuspension_inactive:
  assumes "lastSuspension d k = Some entry"
  shows "is_active entry = False \<and> bl_student_id entry = k \<and> entry \<in> set (blacklistEntries d)"
proof -
  from assms have "entry \<in> set (inactiveSuspensions d k)"
    by (auto simp: lastSuspension_def split: list.splits)
  then show ?thesis by (auto simp: inactiveSuspensions_def allSuspensions_def)
qed

lemma lastSuspensionDate_epoch:
  assumes "filter (\<lambda>e. is_active e = False) (allSuspensions d k) = []"
  shows "lastSuspensionDate d k = 0"
  using assms by (simp add: lastSuspensionDate_def lastSuspension_def inactiveSuspensions_def)

text \<open>
  C10. The at-risk pass leaves the suspension entries, the loans and the equipment as they
  are, whatever the store does; with unique student ids and the store accepting the
  writes, the rows of the students change exactly where a suspension has expired, to
  \<open>is_blacklisted = false\<close> with end date and reason cleared and the time of the pass. So
  the entries that are active stay active, the lookup of the last closed suspension in the
  second loop finds what it would have found before the pass, always an inactive entry,
  and for a student without an inactive entry the cutoff is the epoch.
\<close>

theorem lazy_expiry_leaves_entries_active:
  "(let d' = snd (checkAtRiskStudents now localStorage d) in
      blacklistEntries d' = blacklistEntries d \<and> loans d' = loans d \<and>
      equipment d' = equipment d \<and>
      (writes_left d = None \<and> unique_student_ids d \<longrightarrow>
         students d' = map (\<lambda>s. if expired now s then lift_suspension now s else s) (students d)) \<and>
      active_entries d' studentId = active_entries d studentId \<and>
      lastSuspension d' studentId = lastSuspension d studentId \<and>
      (\<forall>entry. lastSuspension d' studentId = Some entry \<longrightarrow>
         is_active entry = False \<and> entry \<in> set (blacklistEntries d)) \<and>
      (filter (\<lambda>e. is_active e = False) (allSuspensions d studentId) = [] \<longrightarrow>
         lastSuspensionDate d' studentId = 0))"
proof -
  let ?d' = "snd (checkAtRiskStudents now localStorage d)"
  have f: "blacklistEntries ?d' = blacklistEntries d \<and> loans ?d' = loans d \<and>
      equipment ?d' = equipment d"
    unfolding checkAtRiskStudents_snd using lazy_expiry_frame [of now "students d" d] by simp
  have s: "students ?d' = map (\<lambda>s. if expired now s then lift_suspension now s else s) (students d)"
    if "writes_left d = None" "unique_student_ids d"
    unfolding checkAtRiskStudents_snd using lazy_expiry_rows [OF that] .
  have a: "active_entries ?d' studentId = active_entries d studentId"
    using f by (simp add: active_entries_def)
  have l: "lastSuspension ?d' studentId = lastSuspension d studentId"
    using f by (intro lastSuspension_entries) simp
  have i: "is_active entry = False \<and> entry \<in> set (blacklistEntries d)"
    if "lastSuspension ?d' studentId = Some entry" for entry
    using that lastSuspension_inactive [of d studentId entry] unfolding l by simp
  have e: "lastSuspensionDate ?d' studentId = 0"
    if "filter (\<lambda>e. is_active e = False) (allSuspensions d studentId) = []"
  proof -
    have "allSuspensions ?d' studentId = allSuspensions d studentId"
      using f by (simp add: allSuspensions_def)
    then show ?thesis using that lastSuspensionDate_epoch [of ?d' studentId] by simp
  qed
  show ?thesis unfolding Let_def using f s a l i e by blast
qed

text \<open>
  Alice's suspension until 100 at the pass of time 200: her row is lifted, her entry stays
  active, and the cutoff is the epoch.
\<close>

theorem lazy_expiry_leaves_entries_active_witness:
  "writes_left suspended = None \<and> unique_student_ids suspended \<and>
   students lapsed = map (\<lambda>s. if expired 200 s then lift_suspension 200 s else s) (students suspended) \<and>
   map is_blacklisted (students suspended) = [True] \<and>
   map is_blacklisted (students lapsed) = [False] \<and>
   blacklistEntries lapsed = blacklistEntries suspended \<and>
   map is_active (blacklistEntries lapsed) = [True] \<and>
   filter (\<lambda>e. is_active e = False) (allSuspensions suspended ''s1'') = [] \<and>
   lastSuspensionDate lapsed ''s1'' = 0"
proof -
  have a: "writes_left suspended = None \<and> unique_student_ids suspended \<and>
      map is_blacklisted (students suspended) = [True] \<and>
      map is_active (blacklistEntries suspended) = [True] \<and>
      filter (\<lambda>e. is_active e = False) (allSuspensions suspended ''s1'') = []"
    by (simp add: unique_student_ids_def allSuspensions_def handler_defs example_defs)
  have b: "map is_blacklisted (students lapsed) = [False]"
    by (simp add: handler_defs pass_defs example_defs)
  show ?thesis
    using a b lazy_expiry_leaves_entries_active [of 200 "\<lambda>k. None" suspended "''s1''"]
    unfolding Let_def lapsed_def by metis
qed


section \<open>The at-risk rule\<close>

lemma sort_key_head:
  assumes "sort_key f xs = y # ys"
  shows "y \<in> set xs \<and> (\<forall>x \<in> set xs. f y \<le> f x)"
proof -
  have "sorted (map f (sort_key f xs))" by (rule sorted_sort_key)
  then have "\<forall>z \<in> set ys. f y \<le> f z" using assms by simp
  moreover have "set xs = insert y (set ys)"
    using set_sort [of f xs] assms by simp
  ultimately show ?thesis by auto
qed

lemma lastSuspensionDate_spec:
  "lastSuspensionDate d k = lastSuspensionEndDate_spec d k"
proof -
  let ?closed = "filter (\<lambda>e. bl_student_id e = k \<and> \<not> is_active e) (blacklistEntries d)"
  have c: "filter (\<lambda>entry. is_active entry = False) (allSuspensions d k) = ?closed"
    by (simp add: allSuspensions_def)
  show ?thesis
  proof (cases "inactiveSuspensions d k")
    case Nil
    then have "sort_key (\<lambda>entry. - end_date entry) ?closed = []"
      using c by (simp add: inactiveSuspensions_def)
    then have "?closed = []"
      by (metis length_sort length_0_conv)
    then show ?thesis
      using Nil by (simp add: lastSuspensionDate_def lastSuspension_def
          lastSuspensionEndDate_spec_def)
  next
    case (Cons y ys)
    then have h: "y \<in> set ?closed" "\<forall>x \<in> set ?closed. end_date x \<le> end_date y"
      using sort_key_head [of "\<lambda>entry. - end_date entry" ?closed y ys] c
      by (simp_all add: inactiveSuspensions_def)
    then have "Max (set (map end_date ?closed)) = end_date y"
      by (intro Max_eqI) auto
    moreover have "?closed \<noteq> []" using h(1) by (metis empty_iff empty_set)
    ultimately show ?thesis
      using Cons by (simp add: lastSuspensionDate_def lastSuspension_def
          lastSuspensionEndDate_spec_def Let_def)
  qed
qed

lemma lateReturnsSince_after:
  "lateReturnsSince d k = late_returns_after d k (lastSuspensionDate d k)"
  unfolding lateReturnsSince_def late_returns_after_def returnedLoans_def filter_filter
  by (rule arg_cong [where f = length], rule filter_cong) (auto split: option.splits)

lemma lateReturnsSince_spec:
  "lateReturnsSince d k = lateReturnsSinceLastSuspension_spec d k"
  by (simp add: lateReturnsSince_after late_returns_after_def
      lateReturnsSinceLastSuspension_spec_def lastSuspensionDate_spec)

lemma warningThreshold_spec: "warningThreshold d k = warningThreshold_spec d k"
  by (simp add: warningThreshold_def warningThreshold_spec_def suspensionCount_def
      totalSuspensionCount_spec_def)

lemma totalLateReturns_count:
  "totalLateReturns d k =
     length (filter (\<lambda>l. ln_student_id l = k \<and> late l) (loans d))"
  unfolding totalLateReturns_def returnedLoans_def filter_filter
  by (rule arg_cong [where f = length], rule filter_cong) (auto simp: late_def split: option.splits)

lemma late_returns_after_le: "late_returns_after d k t \<le> totalLateReturns d k"
proof -
  have eq: "late_returns_after d k t =
      length (filter (\<lambda>l. case returned_at l of None \<Rightarrow> False | Some r \<Rightarrow> r > t)
                (filter (\<lambda>l. ln_student_id l = k \<and> late l) (loans d)))"
    unfolding late_returns_after_def filter_filter
    by (rule arg_cong [where f = length], rule filter_cong)
      (auto simp: late_def split: option.splits)
  show ?thesis unfolding totalLateReturns_count eq by (rule length_filter_le)
qed

lemma late_returns_after_epoch:
  assumes "returned_after_epoch d"
  shows "late_returns_after d k 0 = totalLateReturns d k"
  unfolding late_returns_after_def totalLateReturns_count
proof (rule arg_cong [where f = length], rule filter_cong)
  fix l assume "l \<in> set (loans d)"
  then have "case returned_at l of None \<Rightarrow> True | Some r \<Rightarrow> 0 < r"
    using assms by (simp add: returned_after_epoch_def)
  then show "(ln_student_id l = k \<and>
       (case returned_at l of None \<Rightarrow> False | Some r \<Rightarrow> due_at l < r \<and> 0 < r)) =
      (ln_student_id l = k \<and> late l)"
    by (auto simp: late_def split: option.splits)
qed simp

lemma no_history:
  assumes "allSuspensions d k = []"
  shows "warningThreshold d k = 3" "lastSuspensionDate d k = 0"
  using assms
  by (simp_all add: warningThreshold_def suspensionCount_def allSuspensions_def
      lastSuspensionDate_def lastSuspension_def inactiveSuspensions_def)

lemma one_closed_suspension:
  assumes "allSuspensions d k = [entry]" "\<not> is_active entry"
  shows "warningThreshold d k = 1" "lastSuspensionDate d k = end_date entry"
  using assms
  by (simp_all add: warningThreshold_def suspensionCount_def allSuspensions_def
      lastSuspensionDate_def lastSuspension_def inactiveSuspensions_def)

lemma atRiskEntry_iff:
  "(atRiskEntry d student \<noteq> None) =
   (warningThreshold d (st_id student) \<le> lateReturnsSince d (st_id student))"
  by (simp add: atRiskEntry_def)

lemma atRiskEntry_Some:
  "atRiskEntry d student = Some r \<Longrightarrow>
   ar_student r = student \<and>
   late_returns_since_suspension r = lateReturnsSince d (st_id student) \<and>
   warning_threshold r = warningThreshold d (st_id student)"
  by (auto simp: atRiskEntry_def split: if_splits)

lemma atRiskEntry_frame:
  "loans d' = loans d \<Longrightarrow> blacklistEntries d' = blacklistEntries d \<Longrightarrow>
   atRiskEntry d' student = atRiskEntry d student"
  by (simp add: atRiskEntry_def lateReturnsSince_after late_returns_after_def
      warningThreshold_def suspensionCount_def totalLateReturns_def returnedLoans_def
      lastSuspensionDate_def lastSuspension_def inactiveSuspensions_def allSuspensions_def)

text \<open>Who is on the list of the second loop.\<close>

lemma studentsWithLateReturns_set:
  "set (studentsWithLateReturns localStorage d snapshot) =
   {r. \<exists>a \<in> set snapshot. atRiskEntry d a = Some r \<and> \<not> dismissed localStorage r}"
proof (induction snapshot)
  case Nil
  then show ?case by (simp add: studentsWithLateReturns_def)
next
  case (Cons a snapshot)
  have step: "set (case atRiskEntry d a of None \<Rightarrow> []
             | Some r \<Rightarrow> if \<not> dismissed localStorage r then [r] else []) =
        {r. atRiskEntry d a = Some r \<and> \<not> dismissed localStorage r}"
    by (cases "atRiskEntry d a") (simp, simp, blast)
  have "set (studentsWithLateReturns localStorage d (a # snapshot)) =
      {r. atRiskEntry d a = Some r \<and> \<not> dismissed localStorage r} \<union>
      set (studentsWithLateReturns localStorage d snapshot)"
    unfolding step [symmetric] by (simp add: studentsWithLateReturns_def)
  then show ?case unfolding Cons.IH by auto
qed

lemma studentsWithLateReturns_member:
  "(s \<in> ar_student ` set (studentsWithLateReturns localStorage d snapshot)) =
   (s \<in> set snapshot \<and> (\<exists>r. atRiskEntry d s = Some r \<and> \<not> dismissed localStorage r))"
proof
  assume "s \<in> ar_student ` set (studentsWithLateReturns localStorage d snapshot)"
  then obtain r a where h: "a \<in> set snapshot" "atRiskEntry d a = Some r"
    "\<not> dismissed localStorage r" "s = ar_student r"
    unfolding studentsWithLateReturns_set by blast
  then have "a = s" using atRiskEntry_Some [OF h(2)] by simp
  then show "s \<in> set snapshot \<and> (\<exists>r. atRiskEntry d s = Some r \<and> \<not> dismissed localStorage r)"
    using h by blast
next
  assume "s \<in> set snapshot \<and> (\<exists>r. atRiskEntry d s = Some r \<and> \<not> dismissed localStorage r)"
  then obtain r where h: "s \<in> set snapshot" "atRiskEntry d s = Some r"
    "\<not> dismissed localStorage r" by blast
  then have "r \<in> set (studentsWithLateReturns localStorage d snapshot)"
    unfolding studentsWithLateReturns_set by blast
  moreover have "ar_student r = s" using atRiskEntry_Some [OF h(2)] by simp
  ultimately show "s \<in> ar_student ` set (studentsWithLateReturns localStorage d snapshot)"
    by (metis imageI)
qed


lemma checkAtRiskStudents_ok:
  assumes "writes_left d = None"
  shows "fst (checkAtRiskStudents now localStorage d) =
     Some (studentsWithLateReturns localStorage d (students d))"
proof -
  let ?d' = "snd (lazy_expiry now (students d) d)"
  have "atRiskEntry ?d' = atRiskEntry d"
    using lazy_expiry_frame [of now "students d" d] by (intro ext atRiskEntry_frame) simp_all
  then have "studentsWithLateReturns localStorage ?d' (students d) =
      studentsWithLateReturns localStorage d (students d)"
    by (simp add: studentsWithLateReturns_def)
  moreover have "fst (lazy_expiry now (students d) d) = None"
    by (simp add: lazy_expiry_ok [OF assms])
  ultimately show ?thesis
    by (cases "lazy_expiry now (students d) d") (simp add: checkAtRiskStudents_def Let_def)
qed

lemma listed_iff:
  "(\<exists>r. atRiskEntry d s = Some r \<and> \<not> dismissed localStorage r) =
   (warningThreshold d (st_id s) \<le> lateReturnsSince d (st_id s) \<and>
    or_null (localStorage (''dismissed_'' @ st_id s @ ''_'' @ dec (lateReturnsSince d (st_id s))))
      = None)"
  by (simp add: atRiskEntry_def dismissed_def dismissedKey_def)

text \<open>
  C8. The second loop passes a student on (its test \<open>lateReturnsSince >= warningThreshold\<close>
  holds) if and only if the late returns since the last suspension, in the words of the
  specification, reach the threshold, which is 1 with at least one suspension entry of any
  kind and 3 with none; the entry made for the student carries that count and that
  threshold. Without suspension history, two late returns do not pass and three (returned
  after the epoch, the cutoff then) do; with one closed suspension, one late return after
  its end date passes. When the store accepts the writes of the first loop, the pass
  returns a list, and a student of the table is on it if and only if the student passes and
  no dismissal is stored under the key of the student and the count.
\<close>

theorem at_risk_flag_rule:
  "(atRiskEntry d student \<noteq> None) =
     (warningThreshold_spec d (st_id student)
        \<le> lateReturnsSinceLastSuspension_spec d (st_id student)) \<and>
   (\<forall>r. atRiskEntry d student = Some r \<longrightarrow>
      ar_student r = student \<and>
      late_returns_since_suspension r = lateReturnsSinceLastSuspension_spec d (st_id student) \<and>
      warning_threshold r = warningThreshold_spec d (st_id student)) \<and>
   (allSuspensions d (st_id student) = [] \<and> totalLateReturns d (st_id student) = 2 \<longrightarrow>
      atRiskEntry d student = None) \<and>
   (allSuspensions d (st_id student) = [] \<and> totalLateReturns d (st_id student) = 3 \<and>
    returned_after_epoch d \<longrightarrow>
      atRiskEntry d student \<noteq> None) \<and>
   (\<forall>entry. allSuspensions d (st_id student) = [entry] \<and> \<not> is_active entry \<and>
      late_returns_after d (st_id student) (end_date entry) = 1 \<longrightarrow>
      atRiskEntry d student \<noteq> None) \<and>
   (writes_left d = None \<longrightarrow>
      (\<exists>listed. fst (checkAtRiskStudents now localStorage d) = Some listed \<and>
         (\<forall>s \<in> set (students d).
            (s \<in> ar_student ` set listed) =
            (warningThreshold_spec d (st_id s) \<le> lateReturnsSinceLastSuspension_spec d (st_id s) \<and>
             or_null (localStorage (''dismissed_'' @ st_id s @ ''_'' @
                        dec (lateReturnsSinceLastSuspension_spec d (st_id s)))) = None))))"
proof -
  let ?k = "st_id student"
  have a: "(atRiskEntry d student \<noteq> None) =
     (warningThreshold_spec d ?k \<le> lateReturnsSinceLastSuspension_spec d ?k)"
    unfolding atRiskEntry_iff warningThreshold_spec lateReturnsSince_spec by (rule refl)
  have b: "ar_student r = student \<and>
      late_returns_since_suspension r = lateReturnsSinceLastSuspension_spec d ?k \<and>
      warning_threshold r = warningThreshold_spec d ?k" if "atRiskEntry d student = Some r" for r
    using atRiskEntry_Some [OF that] by (simp add: warningThreshold_spec lateReturnsSince_spec)
  have c: "atRiskEntry d student = None"
    if "allSuspensions d ?k = []" "totalLateReturns d ?k = 2"
  proof -
    have "lateReturnsSince d ?k \<le> 2"
      using late_returns_after_le [of d ?k "lastSuspensionDate d ?k"] that(2)
      by (simp add: lateReturnsSince_after)
    then show ?thesis using no_history(1) [OF that(1)] by (simp add: atRiskEntry_def)
  qed
  have e: "atRiskEntry d student \<noteq> None"
    if "allSuspensions d ?k = []" "totalLateReturns d ?k = 3" "returned_after_epoch d"
  proof -
    have "lateReturnsSince d ?k = 3"
      using late_returns_after_epoch [OF that(3), of ?k] that(2) no_history(2) [OF that(1)]
      by (simp add: lateReturnsSince_after)
    then show ?thesis using no_history(1) [OF that(1)] by (simp add: atRiskEntry_def)
  qed
  have f: "atRiskEntry d student \<noteq> None"
    if "allSuspensions d ?k = [entry]" "\<not> is_active entry"
      "late_returns_after d ?k (end_date entry) = 1" for entry
    using one_closed_suspension [OF that(1,2)] that(3)
    by (simp add: atRiskEntry_def lateReturnsSince_after)
  have g: "\<exists>listed. fst (checkAtRiskStudents now localStorage d) = Some listed \<and>
         (\<forall>s \<in> set (students d).
            (s \<in> ar_student ` set listed) =
            (warningThreshold_spec d (st_id s) \<le> lateReturnsSinceLastSuspension_spec d (st_id s) \<and>
             or_null (localStorage (''dismissed_'' @ st_id s @ ''_'' @
                        dec (lateReturnsSinceLastSuspension_spec d (st_id s)))) = None))"
    if "writes_left d = None"
    unfolding checkAtRiskStudents_ok [OF that]
    by (simp add: studentsWithLateReturns_member listed_iff warningThreshold_spec
        lateReturnsSince_spec)
  show ?thesis using a b c e f g by blast
qed

text \<open>Alice with two late returns, with three, and with two around a suspension closed at 35.\<close>

theorem at_risk_flag_rule_witness:
  "allSuspensions two_late ''s1'' = [] \<and> totalLateReturns two_late ''s1'' = 2 \<and>
   atRiskEntry two_late alice = None \<and>
   allSuspensions three_late ''s1'' = [] \<and> totalLateReturns three_late ''s1'' = 3 \<and>
   returned_after_epoch three_late \<and> atRiskEntry three_late alice \<noteq> None \<and>
   allSuspensions repeat_offender ''s1'' = [entry_of ''b1'' 35 False] \<and>
   \<not> is_active (entry_of ''b1'' 35 False) \<and>
   late_returns_after repeat_offender ''s1'' (end_date (entry_of ''b1'' 35 False)) = 1 \<and>
   atRiskEntry repeat_offender alice \<noteq> None \<and>
   writes_left three_late = None \<and>
   fst (checkAtRiskStudents 60 (\<lambda>k. None) three_late) \<noteq> None"
proof -
  have k: "st_id alice = ''s1''" by (simp add: alice_def)
  have a: "allSuspensions two_late ''s1'' = [] \<and> totalLateReturns two_late ''s1'' = 2"
    by (simp add: allSuspensions_def totalLateReturns_def returnedLoans_def late_def example_defs)
  have b: "allSuspensions three_late ''s1'' = [] \<and> totalLateReturns three_late ''s1'' = 3 \<and>
      returned_after_epoch three_late \<and> writes_left three_late = None"
    by (simp add: allSuspensions_def totalLateReturns_def returnedLoans_def late_def
        returned_after_epoch_def example_defs)
  have c: "allSuspensions repeat_offender ''s1'' = [entry_of ''b1'' 35 False] \<and>
      \<not> is_active (entry_of ''b1'' 35 False) \<and>
      late_returns_after repeat_offender ''s1'' (end_date (entry_of ''b1'' 35 False)) = 1"
    by (simp add: allSuspensions_def late_returns_after_def example_defs)
  show ?thesis
    using a b c at_risk_flag_rule [of two_late alice 60 "\<lambda>k. None"]
      at_risk_flag_rule [of three_late alice 60 "\<lambda>k. None"]
      at_risk_flag_rule [of repeat_offender alice 60 "\<lambda>k. None"]
    unfolding k by (metis option.distinct(1))
qed

end
